theory Spec2Isabelle
  imports Main
begin

text \<open>
  A model of the request handlers of \<^verbatim>\<open>server.js\<close>, the telemetry service: the three
  ingestion endpoints, the dashboard and the export. Every file operation in the handlers is
  synchronous, so a handler runs from its first statement to its response without another
  handler in between; it is modelled as a function from the request and the world before the
  call to the response and the world after it. The middleware in front of the handlers (CORS,
  the JSON body parser, the access log and the rate limiter) is not part of the model: a
  handler is taken from the point where Express calls it with the parsed body.
\<close>

section \<open>JavaScript values\<close>

text \<open>
  The handlers of \<^verbatim>\<open>server.js\<close> work on whatever \<^verbatim>\<open>express.json()\<close> parsed from the
  request body and on what \<^verbatim>\<open>JSON.parse\<close> reads back from the data files. \<open>jsval\<close> is the
  JSON value space plus \<^verbatim>\<open>undefined\<close>, which a missing property reads as. An object is the
  list of its own properties in enumeration order; a key occurs once.

  Numbers are restricted to integers (counters and epoch milliseconds); fractional values,
  magnitudes beyond exact double precision and NaN are outside the value space. Strings are
  byte lists.
\<close>

datatype jsval =
    JUndef
  | JNull
  | JBool bool
  | JNum int
  | JStr string
  | JArr "jsval list"
  | JObj "(string \<times> jsval) list"

text \<open>ToBoolean, as used by \<^verbatim>\<open>!x\<close>, \<^verbatim>\<open>x || y\<close>, \<^verbatim>\<open>x && y\<close> and \<^verbatim>\<open>if (x)\<close>.\<close>

fun truthy :: "jsval \<Rightarrow> bool" where
  "truthy JUndef = False"
| "truthy JNull = False"
| "truthy (JBool b) = b"
| "truthy (JNum n) = (n \<noteq> 0)"
| "truthy (JStr s) = (s \<noteq> [])"
| "truthy (JArr xs) = True"
| "truthy (JObj kvs) = True"

fun nullish :: "jsval \<Rightarrow> bool" where
  "nullish JUndef = True"
| "nullish JNull = True"
| "nullish v = False"

text \<open>
  \<^verbatim>\<open>v.k\<close> for a value that is neither \<^verbatim>\<open>null\<close> nor \<^verbatim>\<open>undefined\<close> and a key \<open>k\<close> that no
  built-in prototype defines. Every name the handlers read this way (extensionId, message,
  type, timestamp, proxy, url, domain, domains, proxyConfig, data, sessionId, requests, errors,
  totalRequests, proxyUsage, lastActive, host) is such a key, so a primitive or an array
  yields \<^verbatim>\<open>undefined\<close>.
\<close>

fun field :: "jsval \<Rightarrow> string \<Rightarrow> jsval" where
  "field (JObj kvs) k = (case map_of kvs k of None \<Rightarrow> JUndef | Some v \<Rightarrow> v)"
| "field v k = JUndef"

text \<open>
  \<^verbatim>\<open>Map.prototype.set\<close> and the assignment \<^verbatim>\<open>o[k] = v\<close> to an own property: an existing key
  keeps its place, a new key goes last.
\<close>

fun map_set :: "'k \<Rightarrow> 'v \<Rightarrow> ('k \<times> 'v) list \<Rightarrow> ('k \<times> 'v) list" where
  "map_set k v [] = [(k, v)]"
| "map_set k v (p # ps) = (if fst p = k then (k, v) # ps else p # map_set k v ps)"

text \<open>
  \<^verbatim>\<open>o.k = v\<close> in sloppy mode (the file is a CommonJS script without \<^verbatim>\<open>'use strict'\<close>): on an
  object the own property is written; on a primitive the write is dropped; on an array it
  creates a named property that \<^verbatim>\<open>JSON.stringify\<close> never emits, so what is written to a file
  is the array as it was. The caller has already excluded \<^verbatim>\<open>null\<close>.
\<close>

fun set_field :: "jsval \<Rightarrow> string \<Rightarrow> jsval \<Rightarrow> jsval" where
  "set_field (JObj kvs) k v = JObj (map_set k v kvs)"
| "set_field o' k v = o'"

subsection \<open>Conversion to a string\<close>

definition digit_char :: "int \<Rightarrow> char" where
  "digit_char d = ''0123456789'' ! nat (d mod 10)"

text \<open>The decimal digits of a non-negative integer.\<close>

function show_digits :: "int \<Rightarrow> string" where
  "show_digits n = (if n < 10 then [digit_char n] else show_digits (n div 10) @ [digit_char n])"
  by pat_completeness auto
termination
  by (relation "measure nat") auto

declare show_digits.simps [simp del]

definition show_int :: "int \<Rightarrow> string" where
  "show_int i = (if i < 0 then CHR ''-'' # show_digits (- i) else show_digits i)"

fun join_with :: "string \<Rightarrow> string list \<Rightarrow> string" where
  "join_with sep [] = []"
| "join_with sep [s] = s"
| "join_with sep (s # t # ss) = s @ sep @ join_with sep (t # ss)"

fun sequence_opt :: "'a option list \<Rightarrow> 'a list option" where
  "sequence_opt [] = Some []"
| "sequence_opt (None # xs) = None"
| "sequence_opt (Some x # xs) = (case sequence_opt xs of None \<Rightarrow> None | Some ys \<Rightarrow> Some (x # ys))"

text \<open>
  ToString, as applied by a template literal and by a computed property key. \<open>None\<close> is the
  TypeError "Cannot convert object to primitive value": a parsed object whose own
  \<^verbatim>\<open>toString\<close> property shadows the inherited method has nothing callable left that returns
  a primitive. An array is joined with commas, \<^verbatim>\<open>null\<close> and \<^verbatim>\<open>undefined\<close> elements as
  empty strings.
\<close>

fun to_js_string :: "jsval \<Rightarrow> string option" where
  "to_js_string JUndef = Some ''undefined''"
| "to_js_string JNull = Some ''null''"
| "to_js_string (JBool b) = Some (if b then ''true'' else ''false'')"
| "to_js_string (JNum n) = Some (show_int n)"
| "to_js_string (JStr s) = Some s"
| "to_js_string (JArr xs) =
     map_option (join_with '','')
       (sequence_opt (map (\<lambda>x. if nullish x then Some [] else to_js_string x) xs))"
| "to_js_string (JObj kvs) =
     (if map_of kvs ''toString'' = None then Some ''[object Object]'' else None)"

subsection \<open>Serialisation\<close>

text \<open>
  \<^verbatim>\<open>JSON.parse(JSON.stringify(v))\<close> for a value other than \<^verbatim>\<open>undefined\<close>: a property whose
  value is \<^verbatim>\<open>undefined\<close> is omitted, an \<^verbatim>\<open>undefined\<close> array element becomes \<^verbatim>\<open>null\<close>.
\<close>

fun json_roundtrip :: "jsval \<Rightarrow> jsval" where
  "json_roundtrip (JArr xs) =
     JArr (map (\<lambda>x. if x = JUndef then JNull else json_roundtrip x) xs)"
| "json_roundtrip (JObj kvs) =
     JObj (map (\<lambda>p. (fst p, json_roundtrip (snd p))) (filter (\<lambda>p. snd p \<noteq> JUndef) kvs))"
| "json_roundtrip v = v"

section \<open>Paths and the file system\<close>

text \<open>
  A path is the list of its segments from the file system root. \<open>path_join\<close> is
  \<^verbatim>\<open>path.join\<close> on POSIX for an absolute first argument: the arguments are split at
  slashes, empty and \<^verbatim>\<open>.\<close> segments are dropped and \<^verbatim>\<open>..\<close> removes the segment before it
  (nothing at the root).
\<close>

type_synonym path = "string list"

fun split_slash :: "string \<Rightarrow> string list" where
  "split_slash [] = [[]]"
| "split_slash (c # cs) =
     (if c = CHR ''/'' then [] # split_slash cs
      else (case split_slash cs of [] \<Rightarrow> [[c]] | s # ss \<Rightarrow> (c # s) # ss))"

definition norm_step :: "path \<Rightarrow> string \<Rightarrow> path" where
  "norm_step acc s =
     (if s = [] \<or> s = ''.'' then acc else if s = ''..'' then butlast acc else acc @ [s])"

definition path_join :: "path \<Rightarrow> string list \<Rightarrow> path" where
  "path_join base args = foldl norm_step base (concat (map split_slash args))"

text \<open>
  The content of a file is either the text \<^verbatim>\<open>JSON.stringify(v, null, 2)\<close> of a value, held
  as that value, or some other text, which \<^verbatim>\<open>JSON.parse\<close> rejects. A directory is the list
  of its entries. Permissions, links, quotas and name-length limits are not modelled: an
  operation fails only for the structural reasons below.
\<close>

datatype content = JsonText jsval | OtherText

datatype node = File content | Dir "(string \<times> node) list"

datatype js_error =
    TypeError
  | SyntaxError
  | ENOENT
  | ENOTDIR
  | EISDIR
  | EEXIST
  | ERR_INVALID_ARG_VALUE

fun lookup :: "node \<Rightarrow> path \<Rightarrow> node option" where
  "lookup n [] = Some n"
| "lookup (File c) (s # p) = None"
| "lookup (Dir es) (s # p) = (case map_of es s of None \<Rightarrow> None | Some ch \<Rightarrow> lookup ch p)"

text \<open>The error of reading a path that \<open>lookup\<close> does not find.\<close>

fun missing_error :: "node \<Rightarrow> path \<Rightarrow> js_error" where
  "missing_error (File c) (s # p) = ENOTDIR"
| "missing_error (Dir es) (s # p) =
     (case map_of es s of None \<Rightarrow> ENOENT | Some ch \<Rightarrow> missing_error ch p)"
| "missing_error n [] = ENOENT"

text \<open>\<^verbatim>\<open>fs.mkdirSync(p, { recursive: true })\<close> on the tree.\<close>

fun mkdirp :: "node \<Rightarrow> path \<Rightarrow> js_error + node" where
  "mkdirp (Dir es) [] = Inr (Dir es)"
| "mkdirp (File c) [] = Inl EEXIST"
| "mkdirp (File c) (s # p) = Inl ENOTDIR"
| "mkdirp (Dir es) (s # p) =
     (case mkdirp (case map_of es s of None \<Rightarrow> Dir [] | Some ch \<Rightarrow> ch) p of
        Inl e \<Rightarrow> Inl e
      | Inr ch' \<Rightarrow> Inr (Dir (map_set s ch' es)))"

text \<open>\<^verbatim>\<open>fs.writeFileSync(p, text)\<close>: creates or replaces a file in an existing directory.\<close>

fun write_node :: "node \<Rightarrow> path \<Rightarrow> content \<Rightarrow> js_error + node" where
  "write_node n [] c = Inl EISDIR"
| "write_node (File c') (s # p) c = Inl ENOTDIR"
| "write_node (Dir es) [s] c =
     (case map_of es s of
        Some (Dir es') \<Rightarrow> Inl EISDIR
      | _ \<Rightarrow> Inr (Dir (map_set s (File c) es)))"
| "write_node (Dir es) (s # t # p) c =
     (case map_of es s of
        None \<Rightarrow> Inl ENOENT
      | Some ch \<Rightarrow>
          (case write_node ch (t # p) c of
             Inl e \<Rightarrow> Inl e
           | Inr ch' \<Rightarrow> Inr (Dir (map_set s ch' es))))"

text \<open>Node rejects a path that contains a NUL byte before it reaches the file system.\<close>

definition has_nul :: "path \<Rightarrow> bool" where
  "has_nul p = list_ex (\<lambda>s. CHR 0x00 \<in> set s) p"

section \<open>The process state\<close>

text \<open>
  \<^verbatim>\<open>analyticsStore\<close>: four JavaScript Maps keyed by client identifier. A Map enumerates in
  insertion order, so each is an association list.
\<close>

record analytics_store =
  requests :: "(string \<times> jsval list) list"
  errors :: "(string \<times> jsval list) list"
  events :: "(string \<times> jsval list) list"
  users :: "(string \<times> jsval) list"

text \<open>
  The world a handler runs in: the file system, the in-memory store, the directory the
  script lives in (\<^verbatim>\<open>__dirname\<close>) and the clock. \<open>now\<close> is the last clock reading;
  \<open>ticks\<close> holds the amounts by which the clock will have advanced at the following
  readings. They are naturals: the clock does not run backwards.
\<close>

record world =
  fs :: node
  store :: analytics_store
  dirname :: path
  now :: int
  ticks :: "nat list"

definition DATA_DIR :: "world \<Rightarrow> path" where
  "DATA_DIR w = path_join (dirname w) [''data'']"

definition LOGS_DIR :: "world \<Rightarrow> path" where
  "LOGS_DIR w = path_join (DATA_DIR w) [''logs'']"

definition USERS_DIR :: "world \<Rightarrow> path" where
  "USERS_DIR w = path_join (DATA_DIR w) [''users'']"

definition STATS_DIR :: "world \<Rightarrow> path" where
  "STATS_DIR w = path_join (DATA_DIR w) [''stats'']"

subsection \<open>Statements that may throw\<close>

text \<open>
  A statement either returns, or throws, or leaves the model (a coercion of a string to a
  number, which only a hand-edited data file can cause). Effects made before a throw stay.
\<close>

datatype 'a outcome = Return 'a | Throw js_error | Unmodelled

type_synonym 'a io = "world \<Rightarrow> 'a outcome \<times> world"

definition ret :: "'a \<Rightarrow> 'a io" where
  "ret x w = (Return x, w)"

definition throw :: "js_error \<Rightarrow> 'a io" where
  "throw e w = (Throw e, w)"

definition unmodelled :: "'a io" where
  "unmodelled w = (Unmodelled, w)"

definition bnd :: "'a io \<Rightarrow> ('a \<Rightarrow> 'b io) \<Rightarrow> 'b io" where
  "bnd m f w =
     (case m w of
        (Return x, w') \<Rightarrow> f x w'
      | (Throw e, w') \<Rightarrow> (Throw e, w')
      | (Unmodelled, w') \<Rightarrow> (Unmodelled, w'))"

definition lift :: "js_error + 'a \<Rightarrow> 'a io" where
  "lift r = (case r of Inl e \<Rightarrow> throw e | Inr x \<Rightarrow> ret x)"

text \<open>\<^verbatim>\<open>Date.now()\<close> and \<^verbatim>\<open>new Date()\<close>: the clock advances by the next tick and is read.\<close>

definition Date_now :: "int io" where
  "Date_now w =
     (let t = now w + (case ticks w of [] \<Rightarrow> 0 | d # ds \<Rightarrow> int d)
      in (Return t, w\<lparr>now := t, ticks := tl (ticks w)\<rparr>))"

definition existsSync :: "path \<Rightarrow> bool io" where
  "existsSync p w = (Return (\<not> has_nul p \<and> lookup (fs w) p \<noteq> None), w)"

definition mkdirSync :: "path \<Rightarrow> unit io" where
  "mkdirSync p w =
     (if has_nul p then (Throw ERR_INVALID_ARG_VALUE, w)
      else case mkdirp (fs w) p of
             Inl e \<Rightarrow> (Throw e, w)
           | Inr n \<Rightarrow> (Return (), w\<lparr>fs := n\<rparr>))"

definition readFileSync :: "path \<Rightarrow> content io" where
  "readFileSync p w =
     (if has_nul p then (Throw ERR_INVALID_ARG_VALUE, w)
      else case lookup (fs w) p of
             None \<Rightarrow> (Throw (missing_error (fs w) p), w)
           | Some (Dir es) \<Rightarrow> (Throw EISDIR, w)
           | Some (File c) \<Rightarrow> (Return c, w))"

definition writeFileSync :: "path \<Rightarrow> content \<Rightarrow> unit io" where
  "writeFileSync p c w =
     (if has_nul p then (Throw ERR_INVALID_ARG_VALUE, w)
      else case write_node (fs w) p c of
             Inl e \<Rightarrow> (Throw e, w)
           | Inr n \<Rightarrow> (Return (), w\<lparr>fs := n\<rparr>))"

definition readdirSync :: "path \<Rightarrow> string list io" where
  "readdirSync p w =
     (if has_nul p then (Throw ERR_INVALID_ARG_VALUE, w)
      else case lookup (fs w) p of
             None \<Rightarrow> (Throw (missing_error (fs w) p), w)
           | Some (File c) \<Rightarrow> (Throw ENOTDIR, w)
           | Some (Dir es) \<Rightarrow> (Return (map fst es), w))"

text \<open>\<^verbatim>\<open>JSON.parse(text)\<close> of a file's content.\<close>

definition JSON_parse :: "content \<Rightarrow> jsval io" where
  "JSON_parse c =
     (case c of
        OtherText \<Rightarrow> throw SyntaxError
      | JsonText v \<Rightarrow> if v = JUndef then throw SyntaxError else ret (json_roundtrip v))"

definition read_json :: "path \<Rightarrow> jsval io" where
  "read_json p = bnd (readFileSync p) JSON_parse"

text \<open>
  \<^verbatim>\<open>fs.writeFileSync(p, JSON.stringify(v, null, 2))\<close>. \<^verbatim>\<open>JSON.stringify(undefined)\<close> is
  \<^verbatim>\<open>undefined\<close>, which \<^verbatim>\<open>writeFileSync\<close> refuses as data.
\<close>

definition write_json :: "path \<Rightarrow> jsval \<Rightarrow> unit io" where
  "write_json p v = (if v = JUndef then throw TypeError else writeFileSync p (JsonText v))"

text \<open>\<^verbatim>\<open>if (!fs.existsSync(dir)) fs.mkdirSync(dir, { recursive: true })\<close>\<close>

definition ensure_dir :: "path \<Rightarrow> unit io" where
  "ensure_dir p = bnd (existsSync p) (\<lambda>ex. if ex then ret () else mkdirSync p)"

text \<open>\<^verbatim>\<open>path.join\<close> throws a TypeError for an argument that is not a string.\<close>

definition path_arg :: "jsval \<Rightarrow> string io" where
  "path_arg v = (case v of JStr s \<Rightarrow> ret s | _ \<Rightarrow> throw TypeError)"

text \<open>Reading a property of \<^verbatim>\<open>null\<close> or \<^verbatim>\<open>undefined\<close> throws.\<close>

definition read_prop :: "jsval \<Rightarrow> string \<Rightarrow> jsval io" where
  "read_prop v k = (if nullish v then throw TypeError else ret (field v k))"

definition to_string_io :: "jsval \<Rightarrow> string io" where
  "to_string_io v = (case to_js_string v of None \<Rightarrow> throw TypeError | Some s \<Rightarrow> ret s)"

subsection \<open>The in-memory maps\<close>

definition get_seq :: "(string \<times> jsval list) list \<Rightarrow> string \<Rightarrow> jsval list" where
  "get_seq m k = (case map_of m k of None \<Rightarrow> [] | Some xs \<Rightarrow> xs)"

text \<open>\<^verbatim>\<open>if (!m.has(k)) m.set(k, [])\<close>\<close>

definition ensure_seq :: "string \<Rightarrow> (string \<times> jsval list) list \<Rightarrow> (string \<times> jsval list) list" where
  "ensure_seq k m = (if map_of m k = None then map_set k [] m else m)"

text \<open>\<^verbatim>\<open>m.get(k).push(...xs)\<close>, for a key that \<open>ensure_seq\<close> has put in the map.\<close>

definition push_seq :: "string \<Rightarrow> jsval list \<Rightarrow> (string \<times> jsval list) list \<Rightarrow> (string \<times> jsval list) list" where
  "push_seq k xs m = map_set k (get_seq m k @ xs) m"

definition update_store :: "(analytics_store \<Rightarrow> analytics_store) \<Rightarrow> unit io" where
  "update_store f w = (Return (), w\<lparr>store := f (store w)\<rparr>)"

definition requests_ensure :: "string \<Rightarrow> unit io" where
  "requests_ensure k = update_store (\<lambda>s. s\<lparr>requests := ensure_seq k (requests s)\<rparr>)"

definition requests_push :: "string \<Rightarrow> jsval list \<Rightarrow> unit io" where
  "requests_push k xs = update_store (\<lambda>s. s\<lparr>requests := push_seq k xs (requests s)\<rparr>)"

definition errors_ensure :: "string \<Rightarrow> unit io" where
  "errors_ensure k = update_store (\<lambda>s. s\<lparr>errors := ensure_seq k (errors s)\<rparr>)"

definition errors_push :: "string \<Rightarrow> jsval list \<Rightarrow> unit io" where
  "errors_push k xs = update_store (\<lambda>s. s\<lparr>errors := push_seq k xs (errors s)\<rparr>)"

definition events_ensure :: "string \<Rightarrow> unit io" where
  "events_ensure k = update_store (\<lambda>s. s\<lparr>events := ensure_seq k (events s)\<rparr>)"

definition events_push :: "string \<Rightarrow> jsval list \<Rightarrow> unit io" where
  "events_push k xs = update_store (\<lambda>s. s\<lparr>events := push_seq k xs (events s)\<rparr>)"

definition users_set :: "string \<Rightarrow> jsval \<Rightarrow> unit io" where
  "users_set k v = update_store (\<lambda>s. s\<lparr>users := map_set k v (users s)\<rparr>)"

subsection \<open>Requests and responses\<close>

record request =
  body :: jsval
  ip :: "string option"
  user_agent :: "string option"
  authorization :: "string option"

definition of_opt :: "string option \<Rightarrow> jsval" where
  "of_opt x = (case x of None \<Rightarrow> JUndef | Some s \<Rightarrow> JStr s)"

text \<open>
  The tallies of the dashboard are kept in a plain object literal. A count is a number, or
  the string that \<^verbatim>\<open>+ 1\<close> makes of a value inherited from \<^verbatim>\<open>Object.prototype\<close>.
\<close>

datatype count = Count nat | Junk string

text \<open>
  The dashboard report. \<^verbatim>\<open>recentEvents\<close> and \<^verbatim>\<open>uptime\<close> are left out of the record: the
  first is a sort on caller-supplied timestamps whose order the language leaves open when
  they are not numbers, the second a floating-point duration. Whether computing
  \<^verbatim>\<open>recentEvents\<close> throws is modelled (\<open>recent_events_throws\<close>).
\<close>

record dashboard =
  totalUsers :: nat
  activeUsers :: nat
  totalRequests :: nat
  totalErrors :: nat
  proxyUsage :: "(string \<times> count) list"
  topDomains :: "(string \<times> count) list"

text \<open>
  What a handler sends: \<^verbatim>\<open>res.status(n).json(v)\<close> (\<^verbatim>\<open>res.json(v)\<close> is status 200), the
  500 answer of a \<^verbatim>\<open>catch\<close> block with the error's message, the dashboard report, or
  \<^verbatim>\<open>res.download(file)\<close>. \<open>OutOfModel\<close> marks a run that left the model.
\<close>

datatype response =
    Json nat jsval
  | ServerError js_error
  | DashboardJson dashboard
  | Download path
  | OutOfModel

text \<open>\<^verbatim>\<open>try { ... } catch (error) { res.status(500).json({ error: error.message }) }\<close>\<close>

definition try_catch :: "response io \<Rightarrow> world \<Rightarrow> response \<times> world" where
  "try_catch m w =
     (case m w of
        (Return r, w') \<Rightarrow> (r, w')
      | (Throw e, w') \<Rightarrow> (ServerError e, w')
      | (Unmodelled, w') \<Rightarrow> (OutOfModel, w'))"

definition id_required :: response where
  "id_required = Json 400 (JObj [(''error'', JStr ''extensionId required'')])"

definition deref :: "jsval \<Rightarrow> unit io" where
  "deref v = (if nullish v then throw TypeError else ret ())"

subsection \<open>Dates\<close>

definition pad :: "nat \<Rightarrow> int \<Rightarrow> string" where
  "pad width n = replicate (width - length (show_digits n)) CHR ''0'' @ show_digits n"

text \<open>Day number since 1970-01-01 to (year, month, day) of the proleptic Gregorian calendar.\<close>

definition civil_from_days :: "int \<Rightarrow> int \<times> int \<times> int" where
  "civil_from_days z0 =
     (let z = z0 + 719468;
          era = z div 146097;
          doe = z mod 146097;
          yoe = (doe - doe div 1460 + doe div 36524 - doe div 146096) div 365;
          y = yoe + era * 400;
          doy = doe - (365 * yoe + yoe div 4 - yoe div 100);
          mp = (5 * doy + 2) div 153;
          d = doy - (153 * mp + 2) div 5 + 1;
          m = (if mp < 10 then mp + 3 else mp - 9)
      in (if m \<le> 2 then y + 1 else y, m, d))"

definition iso_year :: "int \<Rightarrow> string" where
  "iso_year y =
     (if 0 \<le> y \<and> y \<le> 9999 then pad 4 y
      else (if y < 0 then ''-'' else ''+'') @ pad 6 \<bar>y\<bar>)"

text \<open>\<^verbatim>\<open>new Date(t).toISOString().split('T')[0]\<close>\<close>

definition iso_date :: "int \<Rightarrow> string" where
  "iso_date t =
     (case civil_from_days (t div 86400000) of
        (y, m, d) \<Rightarrow> iso_year y @ ''-'' @ pad 2 m @ ''-'' @ pad 2 d)"

text \<open>\<^verbatim>\<open>new Date(t).toISOString()\<close>\<close>

definition iso_string :: "int \<Rightarrow> string" where
  "iso_string t =
     (let ms = t mod 86400000
      in iso_date t @ ''T'' @ pad 2 (ms div 3600000) @ '':'' @ pad 2 (ms div 60000 mod 60)
           @ '':'' @ pad 2 (ms div 1000 mod 60) @ ''.'' @ pad 3 (ms mod 1000) @ ''Z'')"

section \<open>POST /api/logs\<close>

text \<open>\<^verbatim>\<open>timestamp || Date.now()\<close>: the clock is read only when the left operand is falsy.\<close>

definition or_now :: "jsval \<Rightarrow> jsval io" where
  "or_now v = (if truthy v then ret v else bnd Date_now (\<lambda>t. ret (JNum t)))"

text \<open>\<^verbatim>\<open>type || 'info'\<close>\<close>

definition or_info :: "jsval \<Rightarrow> jsval" where
  "or_info v = (if truthy v then v else JStr ''info'')"

text \<open>\<^verbatim>\<open>a.push(v)\<close>; only an array has the method.\<close>

definition array_push :: "jsval \<Rightarrow> jsval \<Rightarrow> jsval io" where
  "array_push a v = (case a of JArr xs \<Rightarrow> ret (JArr (xs @ [v])) | _ \<Rightarrow> throw TypeError)"

text \<open>Lines 52 to 66: the entry is appended to the client's file of the day.\<close>

definition append_log :: "world \<Rightarrow> request \<Rightarrow> string \<Rightarrow> unit io" where
  "append_log w req eid =
     (let userDir = path_join (LOGS_DIR w) [eid] in
      bnd (ensure_dir userDir) (\<lambda>_.
      bnd Date_now (\<lambda>today.
      let logFile = path_join userDir [iso_date today @ ''.json''] in
      bnd (existsSync logFile) (\<lambda>ex.
      bnd (if ex then read_json logFile else ret (JArr [])) (\<lambda>logs.
      bnd (deref logs) (\<lambda>_.
      bnd (or_now (field (body req) ''timestamp'')) (\<lambda>ts.
      bnd (array_push logs
             (JObj [(''timestamp'', ts),
                    (''type'', or_info (field (body req) ''type'')),
                    (''message'', field (body req) ''message''),
                    (''proxy'', field (body req) ''proxy''),
                    (''ip'', of_opt (ip req))])) (\<lambda>logs'.
      write_json logFile logs'))))))))"

definition post_logs :: "request \<Rightarrow> world \<Rightarrow> response \<times> world" where
  "post_logs req w =
     try_catch
       (bnd (deref (body req)) (\<lambda>_.
        if \<not> truthy (field (body req) ''extensionId'') then ret id_required
        else
        bnd (path_arg (field (body req) ''extensionId'')) (\<lambda>eid.
        bnd (append_log w req eid) (\<lambda>_.
        bnd (events_ensure eid) (\<lambda>_.
        bnd (events_push eid [body req]) (\<lambda>_.
        ret (Json 200 (JObj [(''success'', JBool True), (''received'', JBool True)]))))))))
       w"

section \<open>POST /api/stats\<close>

text \<open>
  ToNumber. A parsed object converts to NaN unless its own \<^verbatim>\<open>toString\<close> blocks the
  conversion; strings, and arrays that convert through their joined string, are not modelled.
\<close>

datatype jsnum = Num int | NaN

definition to_number :: "jsval \<Rightarrow> jsnum io" where
  "to_number v =
     (case v of
        JUndef \<Rightarrow> ret NaN
      | JNull \<Rightarrow> ret (Num 0)
      | JBool b \<Rightarrow> ret (Num (if b then 1 else 0))
      | JNum n \<Rightarrow> ret (Num n)
      | JStr s \<Rightarrow> unmodelled
      | JArr xs \<Rightarrow> (if to_js_string v = None then throw TypeError else unmodelled)
      | JObj kvs \<Rightarrow> (if to_js_string v = None then throw TypeError else ret NaN))"

text \<open>
  \<^verbatim>\<open>obj.k++\<close>. A NaN result is held as \<^verbatim>\<open>null\<close>, which is what \<^verbatim>\<open>JSON.stringify\<close> writes
  for it; the handler does not read the counter again. From \<^verbatim>\<open>2 ** 53\<close> on a double no
  longer holds every integer, so a counter of that magnitude is outside the model.
\<close>

definition increment :: "jsval \<Rightarrow> string \<Rightarrow> jsval io" where
  "increment obj k =
     bnd (deref obj) (\<lambda>_.
     bnd (to_number (field obj k)) (\<lambda>n.
     case n of
       Num i \<Rightarrow>
         if \<bar>i\<bar> < 9007199254740992 then ret (set_field obj k (JNum (i + 1))) else unmodelled
     | NaN \<Rightarrow> ret (set_field obj k JNull)))"

fun is_array :: "jsval \<Rightarrow> bool" where
  "is_array (JArr xs) = True"
| "is_array v = False"

definition default_stats :: jsval where
  "default_stats =
     JObj [(''totalRequests'', JNum 0),
           (''domains'', JArr []),
           (''proxyUsage'', JArr []),
           (''traffic'', JObj [(''total'', JNum 0), (''daily'', JObj [])])]"

fun is_primitive :: "jsval \<Rightarrow> bool" where
  "is_primitive (JArr xs) = False"
| "is_primitive (JObj kvs) = False"
| "is_primitive v = True"

text \<open>
  \<^verbatim>\<open>Array.prototype.includes\<close>: a linear scan with SameValueZero. A freshly parsed object or
  array is identical to no element of another parsed array.
\<close>

definition array_includes :: "jsval list \<Rightarrow> jsval \<Rightarrow> bool" where
  "array_includes xs v = (is_primitive v \<and> v \<in> set xs)"

fun is_prefix :: "string \<Rightarrow> string \<Rightarrow> bool" where
  "is_prefix [] s = True"
| "is_prefix (c # t) [] = False"
| "is_prefix (c # t) (d # s) = (c = d \<and> is_prefix t s)"

text \<open>\<^verbatim>\<open>String.prototype.includes\<close>\<close>

fun string_includes :: "string \<Rightarrow> string \<Rightarrow> bool" where
  "string_includes [] t = (t = [])"
| "string_includes (c # s) t = (is_prefix t (c # s) \<or> string_includes s t)"

text \<open>
  \<^verbatim>\<open>if (domain && !stats.domains.includes(domain)) stats.domains.push(domain)\<close>, for a
  truthy \<open>domain\<close>. Only an array has both methods; a string has \<^verbatim>\<open>includes\<close> alone.
\<close>

definition add_domain :: "jsval \<Rightarrow> jsval \<Rightarrow> jsval io" where
  "add_domain stats domain =
     (case field stats ''domains'' of
        JArr xs \<Rightarrow>
          if array_includes xs domain then ret stats
          else ret (set_field stats ''domains'' (JArr (xs @ [domain])))
      | JStr s \<Rightarrow>
          bnd (to_string_io domain) (\<lambda>t.
          if string_includes s t then ret stats else throw TypeError)
      | _ \<Rightarrow> throw TypeError)"

text \<open>
  \<^verbatim>\<open>stats.proxyUsage.push({ proxy, timestamp: Date.now(), domain, type })\<close>: the member
  lookup throws on \<^verbatim>\<open>null\<close> and \<^verbatim>\<open>undefined\<close> before the argument is evaluated, the call
  throws after it when there is no such method.
\<close>

definition add_proxy_usage :: "jsval \<Rightarrow> jsval \<Rightarrow> jsval \<Rightarrow> jsval \<Rightarrow> jsval io" where
  "add_proxy_usage stats proxy domain type =
     bnd (deref (field stats ''proxyUsage'')) (\<lambda>_.
     bnd Date_now (\<lambda>t.
     bnd (array_push (field stats ''proxyUsage'')
            (JObj [(''proxy'', proxy), (''timestamp'', JNum t), (''domain'', domain), (''type'', type)]))
       (\<lambda>pu. ret (set_field stats ''proxyUsage'' pu))))"

text \<open>Lines 95 to 100: the Stats Record is loaded, or starts from the initial record.\<close>

definition read_stats :: "path \<Rightarrow> jsval io" where
  "read_stats statFile =
     bnd (existsSync statFile) (\<lambda>ex. if ex then read_json statFile else ret default_stats)"

text \<open>Lines 103 to 116: the counter, the domain list and the proxy usage list.\<close>

definition update_stats :: "request \<Rightarrow> jsval \<Rightarrow> jsval io" where
  "update_stats req stats0 =
     bnd (increment stats0 ''totalRequests'') (\<lambda>stats1.
     bnd (if truthy (field (body req) ''domain'')
          then add_domain stats1 (field (body req) ''domain'')
          else ret stats1) (\<lambda>stats2.
     if truthy (field (body req) ''proxy'')
     then add_proxy_usage stats2 (field (body req) ''proxy'') (field (body req) ''domain'')
            (field (body req) ''type'')
     else ret stats2))"

text \<open>
  Lines 120 to 131, the body of \<^verbatim>\<open>if (proxyConfig) { ... }\<close>: the User Record is rewritten
  and mirrored. The right-hand side \<^verbatim>\<open>Date.now()\<close> is evaluated before the assignment
  to a property of \<^verbatim>\<open>null\<close> throws. When the user file holds an array, the assignments
  create named properties that stay on the in-memory copy though not in the file; \<open>jsval\<close>
  has no such arrays, so that run is outside the model.
\<close>

definition save_user :: "world \<Rightarrow> request \<Rightarrow> string \<Rightarrow> unit io" where
  "save_user w req eid =
     (let userFile = path_join (USERS_DIR w) [eid @ ''.json''] in
      bnd (existsSync userFile) (\<lambda>ex.
      bnd (if ex then read_json userFile else ret (JObj [])) (\<lambda>userData.
      bnd Date_now (\<lambda>t.
      bnd (deref userData) (\<lambda>_.
      bnd (if is_array userData then unmodelled else ret ()) (\<lambda>_.
      let userData1 = set_field userData ''lastActive'' (JNum t);
          userData2 = set_field userData1 ''proxyConfig'' (field (body req) ''proxyConfig'');
          userData3 = set_field userData2 ''domains''
                        (if truthy (field (body req) ''domains'')
                         then field (body req) ''domains'' else JArr []);
          userData4 = set_field userData3 ''ip'' (of_opt (ip req));
          userData5 = set_field userData4 ''userAgent'' (of_opt (user_agent req))
      in
      bnd (write_json userFile userData5) (\<lambda>_.
      users_set eid userData5)))))))"

definition post_stats :: "request \<Rightarrow> world \<Rightarrow> response \<times> world" where
  "post_stats req w =
     try_catch
       (bnd (deref (body req)) (\<lambda>_.
        if \<not> truthy (field (body req) ''extensionId'') then ret id_required
        else
        bnd (path_arg (field (body req) ''extensionId'')) (\<lambda>eid.
        let userStatsDir = path_join (STATS_DIR w) [eid];
            statFile = path_join userStatsDir [''stats.json'']
        in
        bnd (ensure_dir userStatsDir) (\<lambda>_.
        bnd (read_stats statFile) (\<lambda>stats0.
        bnd (update_stats req stats0) (\<lambda>stats.
        bnd (if truthy (field (body req) ''proxyConfig'') then save_user w req eid else ret ()) (\<lambda>_.
        bnd (write_json statFile stats) (\<lambda>_.
        bnd (requests_ensure eid) (\<lambda>_.
        bnd (requests_push eid [body req]) (\<lambda>_.
        ret (Json 200 (JObj [(''success'', JBool True)]))))))))))))
       w"

section \<open>POST /api/analytics\<close>

text \<open>
  The spread \<^verbatim>\<open>...v\<close> in an argument list: an array yields its elements, a string its
  characters, anything else that is truthy is not iterable.
\<close>

definition spread :: "jsval \<Rightarrow> jsval list io" where
  "spread v =
     (case v of
        JArr xs \<Rightarrow> ret xs
      | JStr s \<Rightarrow> ret (map (\<lambda>c. JStr [c]) s)
      | _ \<Rightarrow> throw TypeError)"

text \<open>The \<^verbatim>\<open>switch (type)\<close> statement; \<^verbatim>\<open>case\<close> compares with \<^verbatim>\<open>===\<close>.\<close>

definition route :: "jsval \<Rightarrow> jsval \<Rightarrow> string \<Rightarrow> unit io" where
  "route type data eid =
     (if type = JStr ''request'' then
        bnd (requests_ensure eid) (\<lambda>_. requests_push eid [data])
      else if type = JStr ''error'' then
        bnd (errors_ensure eid) (\<lambda>_. errors_push eid [data])
      else if type = JStr ''batch'' then
        bnd (read_prop data ''requests'') (\<lambda>rs.
        bnd (if truthy rs then
               bnd (requests_ensure eid) (\<lambda>_.
               bnd (spread rs) (\<lambda>xs. requests_push eid xs))
             else ret ()) (\<lambda>_.
        bnd (read_prop data ''errors'') (\<lambda>es.
        if truthy es then
          bnd (errors_ensure eid) (\<lambda>_.
          bnd (spread es) (\<lambda>xs. errors_push eid xs))
        else ret ())))
      else ret ())"

text \<open>Lines 159 to 170: the event is written to a file of its own.\<close>

definition persist_analytics :: "world \<Rightarrow> request \<Rightarrow> string \<Rightarrow> unit io" where
  "persist_analytics w req eid =
     (let analyticsDir = path_join (LOGS_DIR w) [eid, ''analytics''] in
      bnd (ensure_dir analyticsDir) (\<lambda>_.
      bnd (to_string_io (field (body req) ''type'')) (\<lambda>type_s.
      bnd Date_now (\<lambda>t1.
      let analyticsFile = path_join analyticsDir [type_s @ ''_'' @ show_int t1 @ ''.json''] in
      bnd Date_now (\<lambda>t2.
      write_json analyticsFile
        (JObj [(''sessionId'', field (body req) ''sessionId''),
               (''timestamp'', JNum t2),
               (''type'', field (body req) ''type''),
               (''data'', field (body req) ''data''),
               (''ip'', of_opt (ip req)),
               (''userAgent'', of_opt (user_agent req))]))))))"

definition post_analytics :: "request \<Rightarrow> world \<Rightarrow> response \<times> world" where
  "post_analytics req w =
     try_catch
       (bnd (deref (body req)) (\<lambda>_.
        if \<not> truthy (field (body req) ''extensionId'') then ret id_required
        else
        bnd (path_arg (field (body req) ''extensionId'')) (\<lambda>eid.
        bnd (persist_analytics w req eid) (\<lambda>_.
        bnd (route (field (body req) ''type'') (field (body req) ''data'') eid) (\<lambda>_.
        ret (Json 200 (JObj [(''success'', JBool True), (''received'', JBool True)])))))))
       w"

section \<open>GET /api/dashboard\<close>

text \<open>
  What a read of \<^verbatim>\<open>{}[k]\<close> finds when the object has no own property \<open>k\<close>: the methods
  of \<^verbatim>\<open>Object.prototype\<close> (given by the name in their source text) and the \<^verbatim>\<open>__proto__\<close>
  accessor.
\<close>

datatype inherited = Method string | ProtoAccessor

definition object_prototype :: "string \<Rightarrow> inherited option" where
  "object_prototype k =
     (if k = ''__proto__'' then Some ProtoAccessor
      else if k = ''constructor'' then Some (Method ''Object'')
      else if k \<in> set [''__defineGetter__'', ''__defineSetter__'', ''hasOwnProperty'',
                        ''__lookupGetter__'', ''__lookupSetter__'', ''isPrototypeOf'',
                        ''propertyIsEnumerable'', ''toString'', ''valueOf'', ''toLocaleString'']
      then Some (Method k)
      else None)"

text \<open>
  \<^verbatim>\<open>tbl[k] = (tbl[k] || 0) + 1\<close> on an object literal. An own number is incremented. With
  no own property the read falls through to the prototype: for most keys it finds nothing
  and the count starts at 1; for a method name it finds a function, which is truthy, and
  \<^verbatim>\<open>+ 1\<close> appends the character 1 to its source text; for \<^verbatim>\<open>__proto__\<close> the assignment goes
  to the inherited setter, which ignores a string.
\<close>

definition tally :: "string \<Rightarrow> (string \<times> count) list \<Rightarrow> (string \<times> count) list" where
  "tally k tbl =
     (case map_of tbl k of
        Some (Count n) \<Rightarrow> map_set k (Count (n + 1)) tbl
      | Some (Junk s) \<Rightarrow> map_set k (if s = [] then Count 1 else Junk (s @ ''1'')) tbl
      | None \<Rightarrow>
          (case object_prototype k of
             None \<Rightarrow> map_set k (Count 1) tbl
           | Some (Method f) \<Rightarrow> map_set k (Junk (''function '' @ f @ ''() { [native code] }1'')) tbl
           | Some ProtoAccessor \<Rightarrow> tbl))"

text \<open>
  \<^verbatim>\<open>analyticsStore.requests.forEach(requests => requests.forEach(req => { if (req.domain) ... }))\<close>
  over the payloads of all clients in order.
\<close>

fun tally_domains :: "jsval list \<Rightarrow> (string \<times> count) list \<Rightarrow> js_error + (string \<times> count) list" where
  "tally_domains [] tbl = Inr tbl"
| "tally_domains (r # rs) tbl =
     (if nullish r then Inl TypeError
      else if truthy (field r ''domain'') then
        (case to_js_string (field r ''domain'') of
           None \<Rightarrow> Inl TypeError
         | Some k \<Rightarrow> tally_domains rs (tally k tbl))
      else tally_domains rs tbl)"

text \<open>\<^verbatim>\<open>user.proxyConfig?.host\<close>\<close>

definition proxy_host :: "jsval \<Rightarrow> jsval" where
  "proxy_host user =
     (if nullish (field user ''proxyConfig'') then JUndef
      else field (field user ''proxyConfig'') ''host'')"

fun tally_hosts :: "jsval list \<Rightarrow> (string \<times> count) list \<Rightarrow> js_error + (string \<times> count) list" where
  "tally_hosts [] tbl = Inr tbl"
| "tally_hosts (u # us) tbl =
     (if nullish u then Inl TypeError
      else if truthy (proxy_host u) then
        (case to_js_string (proxy_host u) of
           None \<Rightarrow> Inl TypeError
         | Some k \<Rightarrow> tally_hosts us (tally k tbl))
      else tally_hosts us tbl)"

text \<open>
  \<^verbatim>\<open>.filter(user => Date.now() - user.lastActive < 24 * 60 * 60 * 1000).length\<close>; the clock
  is read once per user, and a comparison with NaN is false.
\<close>

fun count_active :: "jsval list \<Rightarrow> nat io" where
  "count_active [] = ret 0"
| "count_active (u # us) =
     bnd Date_now (\<lambda>t.
     bnd (deref u) (\<lambda>_.
     bnd (to_number (field u ''lastActive'')) (\<lambda>la.
     bnd (count_active us) (\<lambda>n.
     ret ((case la of Num i \<Rightarrow> (if t - i < 86400000 then 1 else 0) | NaN \<Rightarrow> 0) + n)))))"

text \<open>
  \<^verbatim>\<open>Object.entries\<close> enumerates the keys that are array indices (canonical decimal numerals
  below \<open>2\<^sup>3\<^sup>2 - 1\<close>) first, in ascending numeric order, and then the other keys in
  insertion order.
\<close>

definition digits_value :: "string \<Rightarrow> int" where
  "digits_value s = foldl (\<lambda>a c. 10 * a + (of_char c - 48)) 0 s"

definition is_array_index :: "string \<Rightarrow> bool" where
  "is_array_index s =
     (s \<noteq> [] \<and> list_all (\<lambda>c. c \<in> set ''0123456789'') s
      \<and> (length s = 1 \<or> hd s \<noteq> CHR ''0'') \<and> digits_value s < 4294967295)"

definition own_keys_order :: "(string \<times> 'a) list \<Rightarrow> (string \<times> 'a) list" where
  "own_keys_order kvs =
     sort_key (\<lambda>p. digits_value (fst p)) (filter (\<lambda>p. is_array_index (fst p)) kvs)
       @ filter (\<lambda>p. \<not> is_array_index (fst p)) kvs"

text \<open>
  \<^verbatim>\<open>.sort((a, b) => b.count - a.count)\<close>: a stable sort. The comparator yields NaN when a
  count is not a number, which the sort takes as 0. As long as the numbers among the counts
  are all equal, every comparison is then 0 and the order stays as it was. When a count is
  not a number and two numbers differ, the comparator is inconsistent and the language
  leaves the order to the engine: \<open>order_open\<close> holds, and the dashboard is outside the model.
\<close>

definition order_open :: "(string \<times> count) list \<Rightarrow> bool" where
  "order_open tbl =
     (list_ex (\<lambda>p. case snd p of Junk s \<Rightarrow> True | Count n \<Rightarrow> False) tbl
      \<and> 2 \<le> length (remdups (concat (map (\<lambda>p. case snd p of Count n \<Rightarrow> [n] | Junk s \<Rightarrow> []) tbl))))"

definition compare_count :: "string \<times> count \<Rightarrow> string \<times> count \<Rightarrow> int" where
  "compare_count a b =
     (case (snd a, snd b) of (Count m, Count n) \<Rightarrow> int n - int m | _ \<Rightarrow> 0)"

fun insert_by_count :: "string \<times> count \<Rightarrow> (string \<times> count) list \<Rightarrow> (string \<times> count) list" where
  "insert_by_count x [] = [x]"
| "insert_by_count x (y # ys) =
     (if compare_count x y \<le> 0 then x # y # ys else y # insert_by_count x ys)"

definition sort_by_count :: "(string \<times> count) list \<Rightarrow> (string \<times> count) list" where
  "sort_by_count xs = foldr insert_by_count xs []"

text \<open>\<^verbatim>\<open>Object.entries(tbl).map(...).sort(...).slice(0, 10)\<close>\<close>

definition top10 :: "(string \<times> count) list \<Rightarrow> (string \<times> count) list" where
  "top10 tbl = take 10 (sort_by_count (own_keys_order tbl))"

text \<open>
  \<^verbatim>\<open>.flat().sort((a, b) => b.timestamp - a.timestamp)\<close> throws when the comparator does:
  on a \<^verbatim>\<open>null\<close> element, or on a timestamp that cannot be converted to a primitive. The
  sort moves \<^verbatim>\<open>undefined\<close> elements to the end without comparing them, and compares every
  other element at least once when there are two or more.
\<close>

definition recent_events_throws :: "jsval list \<Rightarrow> bool" where
  "recent_events_throws evs =
     (let xs = filter (\<lambda>x. x \<noteq> JUndef) evs
      in 2 \<le> length xs \<and> list_ex (\<lambda>x. x = JNull \<or> to_js_string (field x ''timestamp'') = None) xs)"

text \<open>\<^verbatim>\<open>Array.from(m.values()).reduce((acc, arr) => acc + arr.length, 0)\<close>\<close>

definition total_length :: "(string \<times> jsval list) list \<Rightarrow> nat" where
  "total_length m = foldl (\<lambda>acc arr. acc + length arr) 0 (map snd m)"

definition get_dashboard :: "world \<Rightarrow> response \<times> world" where
  "get_dashboard w =
     try_catch
       (bnd (readdirSync (USERS_DIR w)) (\<lambda>names.
        bnd (count_active (map snd (users (store w)))) (\<lambda>active.
        bnd (lift (tally_hosts (map snd (users (store w))) [])) (\<lambda>proxyUsage_tbl.
        bnd (lift (tally_domains (concat (map snd (requests (store w)))) [])) (\<lambda>domainStats.
        if recent_events_throws (concat (map snd (events (store w)))) then throw TypeError
        else if order_open proxyUsage_tbl \<or> order_open domainStats then unmodelled
        else
        ret (DashboardJson
               \<lparr>totalUsers = length names,
                activeUsers = active,
                totalRequests = total_length (requests (store w)),
                totalErrors = total_length (errors (store w)),
                proxyUsage = top10 proxyUsage_tbl,
                topDomains = top10 domainStats\<rparr>))))))
       w"

section \<open>GET /api/export\<close>

text \<open>\<^verbatim>\<open>Object.fromEntries(map)\<close>: an object with the map's entries as own properties.\<close>

definition from_entries :: "(string \<times> jsval) list \<Rightarrow> jsval" where
  "from_entries kvs = JObj (own_keys_order kvs)"

definition export_data :: "analytics_store \<Rightarrow> int \<Rightarrow> jsval" where
  "export_data s t =
     JObj [(''timestamp'', JStr (iso_string t)),
           (''totalUsers'', JNum (int (length (users s)))),
           (''analyticsStore'', from_entries (map (\<lambda>p. (fst p, JArr (snd p))) (requests s))),
           (''users'', from_entries (users s))]"

definition get_export :: "request \<Rightarrow> world \<Rightarrow> response \<times> world" where
  "get_export req w =
     try_catch
       (if authorization req \<noteq> Some ''Bearer admin123''
        then ret (Json 403 (JObj [(''error'', JStr ''Unauthorized'')]))
        else
        bnd Date_now (\<lambda>t.
        let exportData = export_data (store w) t in
        bnd Date_now (\<lambda>t'.
        let exportFile = path_join (DATA_DIR w) [''export_'' @ show_int t' @ ''.json''] in
        bnd (write_json exportFile exportData) (\<lambda>_.
        ret (Download exportFile)))))
       w"

section \<open>Start of the process\<close>

definition empty_store :: analytics_store where
  "empty_store = \<lparr>requests = [], errors = [], events = [], users = []\<rparr>"

text \<open>Lines 30 to 40: the three data directories are created, the store starts empty.\<close>

definition startup :: "world \<Rightarrow> unit outcome \<times> world" where
  "startup w =
     bnd (ensure_dir (LOGS_DIR w)) (\<lambda>_.
     bnd (ensure_dir (USERS_DIR w)) (\<lambda>_.
     ensure_dir (STATS_DIR w)))
     (w\<lparr>store := empty_store\<rparr>)"

section \<open>Example inputs\<close>

text \<open>A request with the given JSON body, and one with an Authorization header only.\<close>

definition json_request :: "jsval \<Rightarrow> request" where
  "json_request b = \<lparr>body = b, ip = Some ''203.0.113.7'', user_agent = Some ''ProxyMaster/1.0'', authorization = None\<rparr>"

definition auth_request :: "string option \<Rightarrow> request" where
  "auth_request a = \<lparr>body = JObj [], ip = Some ''203.0.113.7'', user_agent = None, authorization = a\<rparr>"

text \<open>
  The world right after the process started in \<^verbatim>\<open>/srv\<close> on an empty disk, at noon of
  2026-11-02 UTC, with a clock that advances one millisecond per reading.
\<close>

definition fresh_world :: world where
  "fresh_world =
     \<lparr>fs = Dir [(''srv'', Dir [(''data'', Dir [(''logs'', Dir []), (''users'', Dir []), (''stats'', Dir [])])])],
      store = empty_store,
      dirname = [''srv''],
      now = 1793620800000,
      ticks = replicate 40 1\<rparr>"

text \<open>The report carried by a dashboard response, if it is one.\<close>

definition report :: "response \<Rightarrow> dashboard option" where
  "report r = (case r of DashboardJson d \<Rightarrow> Some d | _ \<Rightarrow> None)"

text \<open>The world after a handler has served the given requests one after the other.\<close>

definition after_calls ::
  "(request \<Rightarrow> world \<Rightarrow> response \<times> world) \<Rightarrow> request list \<Rightarrow> world \<Rightarrow> world" where
  "after_calls h rs w = foldl (\<lambda>w r. snd (h r w)) w rs"

definition stats_call :: "string \<Rightarrow> string \<Rightarrow> request" where
  "stats_call e d = json_request (JObj [(''extensionId'', JStr e), (''domain'', JStr d)])"

text \<open>Five calls to /api/stats, three for one client and two for another.\<close>

definition five_calls :: "request list" where
  "five_calls =
     [stats_call ''ext1'' ''a.com'', stats_call ''ext2'' ''b.org'', stats_call ''ext1'' ''a.com'',
      stats_call ''ext2'' ''a.com'', stats_call ''ext1'' ''c.net'']"

text \<open>The snapshot that an export response lets the caller download: the parsed export file.\<close>

definition snapshot_of :: "response \<times> world \<Rightarrow> jsval option" where
  "snapshot_of rw =
     (case fst rw of
        Download f \<Rightarrow> (case fst (read_json f (snd rw)) of Return v \<Rightarrow> Some v | _ \<Rightarrow> None)
      | _ \<Rightarrow> None)"

text \<open>
  A process that has stored one User Record, and the process started next on the same disk:
  the files are still there, the in-memory maps are empty again.
\<close>

definition config_call :: request where
  "config_call =
     json_request (JObj [(''extensionId'', JStr ''ext1''),
                         (''proxyConfig'', JObj [(''host'', JStr ''proxy.example'')])])"

definition restarted_world :: world where
  "restarted_world = snd (startup (after_calls post_stats [config_call] fresh_world))"

text \<open>The entries that \<^verbatim>\<open>JSON.parse\<close> reads from a log file; none if there is no such array.\<close>

definition logged :: "path \<Rightarrow> world \<Rightarrow> jsval list" where
  "logged p w = (case fst (read_json p w) of Return (JArr xs) \<Rightarrow> xs | _ \<Rightarrow> [])"

text \<open>The log file of client \<open>eid\<close> for the day of the clock reading \<open>t\<close>.\<close>

definition day_file :: "world \<Rightarrow> string \<Rightarrow> int \<Rightarrow> path" where
  "day_file w eid t = path_join (path_join (LOGS_DIR w) [eid]) [iso_date t @ ''.json'']"

text \<open>A value without \<^verbatim>\<open>undefined\<close> in it: what a JSON text denotes.\<close>

fun is_json :: "jsval \<Rightarrow> bool" where
  "is_json JUndef = False"
| "is_json (JArr xs) = list_all is_json xs"
| "is_json (JObj kvs) = list_all (\<lambda>p. is_json (snd p)) kvs"
| "is_json v = True"

text \<open>A log call that supplies a zero timestamp and an empty type.\<close>

definition falsy_log_call :: request where
  "falsy_log_call =
     json_request (JObj [(''extensionId'', JStr ''ext1''), (''message'', JStr ''started''),
                         (''timestamp'', JNum 0), (''type'', JStr [])])"

text \<open>A log call that supplies both.\<close>

definition full_log_call :: request where
  "full_log_call =
     json_request (JObj [(''extensionId'', JStr ''ext1''), (''message'', JStr ''started''),
                         (''timestamp'', JNum 1793620000000), (''type'', JStr ''warn'')])"

text \<open>Analytics calls: a batch without data, and a batch whose \<^verbatim>\<open>requests\<close> is a number.\<close>

definition analytics_call :: "(string \<times> jsval) list \<Rightarrow> request" where
  "analytics_call props = json_request (JObj ((''extensionId'', JStr ''ext1'') # props))"

definition batch_without_data :: request where
  "batch_without_data = analytics_call [(''type'', JStr ''batch'')]"

definition batch_with_number :: request where
  "batch_with_number =
     analytics_call
       [(''type'', JStr ''batch''),
        (''data'', JObj [(''requests'', JNum 5), (''errors'', JArr [JObj [(''e'', JNum 1)]])])]"

text \<open>The batch of the specification's scenario: two requests and one error.\<close>

definition batch_two_one :: request where
  "batch_two_one =
     analytics_call
       [(''type'', JStr ''batch''),
        (''data'', JObj [(''requests'', JArr [JObj [(''a'', JNum 1)], JObj [(''b'', JNum 2)]]),
                         (''errors'', JArr [JObj [(''e'', JNum 1)]])])]"

text \<open>
  Calls for the domain tally: the specification's three stats calls, an analytics call of
  type \<^verbatim>\<open>request\<close> with a payload, and one that has no \<^verbatim>\<open>data\<close>.
\<close>

definition example_calls :: "request list" where
  "example_calls =
     [stats_call ''ext1'' ''example.com'', stats_call ''ext1'' ''example.com'',
      stats_call ''ext1'' ''example.com'']"

definition request_call :: request where
  "request_call =
     analytics_call [(''type'', JStr ''request''), (''data'', JObj [(''domain'', JStr ''a.com'')])]"

definition request_without_data :: request where
  "request_without_data = analytics_call [(''type'', JStr ''request'')]"

text \<open>
  A stats call whose domain is an object with an own \<^verbatim>\<open>toString\<close> property that is not a
  function: \<^verbatim>\<open>{"extensionId": "ext1", "domain": {"toString": 1}}\<close>.
\<close>

definition object_domain_call :: request where
  "object_domain_call =
     json_request (JObj [(''extensionId'', JStr ''ext1''),
                         (''domain'', JObj [(''toString'', JNum 1)])])"

text \<open>
  The Stats Record file of a client, and the record as the stats handler loads it: the
  parsed file, or the initial record when there is no file.
\<close>

definition stat_file :: "world \<Rightarrow> string \<Rightarrow> path" where
  "stat_file w eid = path_join (path_join (STATS_DIR w) [eid]) [''stats.json'']"

definition loaded_stats :: "world \<Rightarrow> string \<Rightarrow> jsval" where
  "loaded_stats w eid =
     (case fst (read_stats (stat_file w eid) w) of Return s \<Rightarrow> s | _ \<Rightarrow> JUndef)"

text \<open>
  A stats call whose client identifier leads out of the users directory: its User Record
  file \<^verbatim>\<open>users/../stats/b/stats.json\<close> is the Stats Record file of client \<^verbatim>\<open>b\<close>.
\<close>

definition overwrite_call :: request where
  "overwrite_call =
     json_request (JObj [(''extensionId'', JStr ''../stats/b/stats''),
                         (''proxyConfig'', JObj [(''host'', JStr ''proxy.example'')]),
                         (''domains'', JArr [JStr ''x.com'', JStr ''x.com''])])"

text \<open>
  The key under which the dashboard tallies a stored payload, if it tallies it, and the
  number of payloads tallied under a key.
\<close>

definition domain_key :: "jsval \<Rightarrow> string option" where
  "domain_key r =
     (if truthy (field r ''domain'') then to_js_string (field r ''domain'') else None)"

definition occurrences :: "string \<Rightarrow> jsval list \<Rightarrow> nat" where
  "occurrences k rs = length (filter (\<lambda>r. domain_key r = Some k) rs)"

text \<open>The number that an entry of a ranking carries; 0 for an entry that carries none.\<close>

fun rank :: "string \<times> count \<Rightarrow> nat" where
  "rank (k, Count n) = n"
| "rank (k, Junk s) = 0"

section \<open>Basic facts about statements\<close>

lemma bnd_ret [simp]: "bnd (ret x) f = f x"
  by (rule ext) (simp add: bnd_def ret_def)

lemma bnd_throw [simp]: "bnd (throw e) f = throw e"
  by (rule ext) (simp add: bnd_def throw_def)

lemma bnd_unmodelled [simp]: "bnd unmodelled f = unmodelled"
  by (rule ext) (simp add: bnd_def unmodelled_def)

lemma try_catch_ret [simp]: "try_catch (ret r) w = (r, w)"
  by (simp add: try_catch_def ret_def)

lemma try_catch_throw [simp]: "try_catch (throw e) w = (ServerError e, w)"
  by (simp add: try_catch_def throw_def)

lemma deref_ok [simp]: "\<not> nullish v \<Longrightarrow> deref v = ret ()"
  by (simp add: deref_def)

text \<open>A sequence returns only if its first statement returns and the rest does.\<close>

lemma bnd_ReturnE:
  assumes "bnd m f w = (Return y, w')"
  obtains x w1 where "m w = (Return x, w1)" and "f x w1 = (Return y, w')"
  using assms by (auto simp: bnd_def split: prod.splits outcome.splits)

lemma bnd_Return_step: "m w = (Return x, w1) \<Longrightarrow> bnd m f w = f x w1"
  by (simp add: bnd_def)

lemma try_catch_JsonD: "try_catch m w = (Json n a, w') \<Longrightarrow> m w = (Return (Json n a), w')"
  by (auto simp: try_catch_def split: prod.splits outcome.splits)

lemma try_catch_ReturnD:
  "try_catch m w = (r, w') \<Longrightarrow> \<forall>e. r \<noteq> ServerError e \<Longrightarrow> r \<noteq> OutOfModel \<Longrightarrow>
     m w = (Return r, w')"
  by (auto simp: try_catch_def split: prod.splits outcome.splits)

lemma ret_D: "ret x w = (r, w') \<Longrightarrow> r = Return x \<and> w' = w"
  by (simp add: ret_def)

lemma deref_D: "deref v w = (Return u, w') \<Longrightarrow> \<not> nullish v \<and> w' = w"
  by (auto simp: deref_def ret_def throw_def split: if_splits)

lemma path_arg_D: "path_arg v w = (Return s, w') \<Longrightarrow> v = JStr s \<and> w' = w"
  by (auto simp: path_arg_def ret_def throw_def split: jsval.splits)

lemma existsSync_D:
  "existsSync p w = (r, w') \<Longrightarrow> r = Return (\<not> has_nul p \<and> lookup (fs w) p \<noteq> None) \<and> w' = w"
  by (auto simp: existsSync_def)

lemma to_string_io_D: "to_string_io v w = (Return s, w') \<Longrightarrow> to_js_string v = Some s \<and> w' = w"
  by (auto simp: to_string_io_def ret_def throw_def split: option.splits)

lemma to_number_D: "to_number v w = (r, w') \<Longrightarrow> w' = w"
  by (auto simp: to_number_def ret_def throw_def unmodelled_def split: jsval.splits if_splits)

lemma readFileSync_D: "readFileSync p w = (r, w') \<Longrightarrow> w' = w"
  by (auto simp: readFileSync_def split: if_splits option.splits node.splits)

lemma JSON_parse_D: "JSON_parse c w = (r, w') \<Longrightarrow> w' = w"
  by (auto simp: JSON_parse_def ret_def throw_def split: content.splits if_splits)

lemma JSON_parse_world:
  "JSON_parse c w1 = (Return s, w1') \<Longrightarrow> JSON_parse c w = (Return s, w)"
  by (auto simp: JSON_parse_def ret_def throw_def split: content.splits if_splits)

lemma read_json_D: "read_json p w = (r, w') \<Longrightarrow> w' = w"
  by (auto simp: read_json_def bnd_def split: prod.splits outcome.splits
           dest: readFileSync_D JSON_parse_D)

lemma array_push_D:
  "array_push a v w = (Return a', w') \<Longrightarrow> (\<exists>xs. a = JArr xs \<and> a' = JArr (xs @ [v])) \<and> w' = w"
  by (auto simp: array_push_def ret_def throw_def split: jsval.splits)

text \<open>What each kind of statement leaves alone.\<close>

lemma mkdirSync_frame:
  "mkdirSync p w = (r, w') \<Longrightarrow>
     store w' = store w \<and> dirname w' = dirname w \<and> now w' = now w \<and> ticks w' = ticks w"
  by (auto simp: mkdirSync_def split: if_splits sum.splits)

lemma ensure_dir_frame:
  "ensure_dir p w = (r, w') \<Longrightarrow>
     store w' = store w \<and> dirname w' = dirname w \<and> now w' = now w \<and> ticks w' = ticks w"
  by (auto simp: ensure_dir_def bnd_def existsSync_def ret_def dest: mkdirSync_frame split: if_splits)

lemma Date_now_D:
  "Date_now w = (r, w') \<Longrightarrow>
     r = Return (now w') \<and> now w \<le> now w' \<and> fs w' = fs w \<and> store w' = store w
     \<and> dirname w' = dirname w"
  by (auto simp: Date_now_def Let_def split: list.splits)

lemma or_now_D:
  "or_now v w = (Return ts, w') \<Longrightarrow>
     ts = (if truthy v then v else JNum (now w')) \<and> now w \<le> now w' \<and> fs w' = fs w
     \<and> store w' = store w \<and> dirname w' = dirname w"
  by (auto simp: or_now_def ret_def bnd_def split: if_splits prod.splits outcome.splits
           dest: Date_now_D)

lemma update_store_D:
  "update_store f w = (r, w') \<Longrightarrow>
     r = Return () \<and> store w' = f (store w) \<and> fs w' = fs w \<and> dirname w' = dirname w
     \<and> now w' = now w \<and> ticks w' = ticks w"
  by (auto simp: update_store_def)

section \<open>Files, directories and serialisation\<close>

lemma map_of_map_set: "map_of (map_set k v es) = (map_of es)(k \<mapsto> v)"
  by (induction es) (auto simp: fun_eq_iff)

lemma write_node_lookup: "write_node n p c = Inr n' \<Longrightarrow> lookup n' p = Some (File c)"
proof (induction n p c arbitrary: n' rule: write_node.induct)
  case (4 es s t p c)
  then show ?case
    by (auto simp: map_of_map_set split: option.splits sum.splits)
qed (auto simp: map_of_map_set split: option.splits node.splits)

lemma write_json_D:
  "write_json p v w = (Return u, w') \<Longrightarrow>
     lookup (fs w') p = Some (File (JsonText v)) \<and> v \<noteq> JUndef \<and> \<not> has_nul p
     \<and> store w' = store w \<and> dirname w' = dirname w \<and> now w' = now w \<and> ticks w' = ticks w"
  by (auto simp: write_json_def writeFileSync_def throw_def split: if_splits sum.splits
           dest: write_node_lookup)

lemma read_back:
  "lookup (fs w) p = Some (File (JsonText v)) \<Longrightarrow> v \<noteq> JUndef \<Longrightarrow> \<not> has_nul p \<Longrightarrow>
     read_json p w = (Return (json_roundtrip v), w)"
  by (simp add: read_json_def readFileSync_def bnd_def JSON_parse_def ret_def)

text \<open>Creating directories neither adds nor removes nor changes a file.\<close>

lemma mkdirp_files:
  "mkdirp n p = Inr n' \<Longrightarrow> lookup n' q = Some (File c) \<longleftrightarrow> lookup n q = Some (File c)"
proof (induction n p arbitrary: n' q rule: mkdirp.induct)
  case (4 es s p)
  then obtain ch' where
    ch': "mkdirp (case map_of es s of None \<Rightarrow> Dir [] | Some ch \<Rightarrow> ch) p = Inr ch'"
    and n': "n' = Dir (map_set s ch' es)"
    by (auto split: sum.splits)
  show ?case
  proof (cases q)
    case Nil
    then show ?thesis by (simp add: n')
  next
    case (Cons t q')
    have empty: "lookup (Dir []) q' \<noteq> Some (File c)"
      by (cases q') auto
    from "4.IH" [OF ch'] have "lookup ch' q' = Some (File c) \<longleftrightarrow>
        lookup (case map_of es s of None \<Rightarrow> Dir [] | Some ch \<Rightarrow> ch) q' = Some (File c)" .
    with empty show ?thesis
      by (auto simp: Cons n' map_of_map_set split: option.splits)
  qed
qed auto

lemma mkdirp_keeps:
  "mkdirp n p = Inr n' \<Longrightarrow> lookup n' q = None \<Longrightarrow> lookup n q = None"
proof (induction n p arbitrary: n' q rule: mkdirp.induct)
  case (4 es s p)
  then obtain ch' where
    ch': "mkdirp (case map_of es s of None \<Rightarrow> Dir [] | Some ch \<Rightarrow> ch) p = Inr ch'"
    and n': "n' = Dir (map_set s ch' es)"
    by (auto split: sum.splits)
  show ?case
  proof (cases q)
    case Nil
    with "4.prems" show ?thesis by (simp add: n')
  next
    case (Cons t q')
    from "4.IH" [OF ch'] have
      "lookup ch' q' = None \<Longrightarrow>
         lookup (case map_of es s of None \<Rightarrow> Dir [] | Some ch \<Rightarrow> ch) q' = None" .
    with "4.prems" show ?thesis
      by (auto simp: Cons n' map_of_map_set split: option.splits if_splits)
  qed
qed auto

lemma ensure_dir_files:
  "ensure_dir p w = (Return u, w') \<Longrightarrow>
     lookup (fs w') q = Some (File c) \<longleftrightarrow> lookup (fs w) q = Some (File c)"
  by (auto simp: ensure_dir_def bnd_def existsSync_def ret_def mkdirSync_def mkdirp_files
           split: if_splits sum.splits)

lemma json_roundtrip_undef [simp]: "json_roundtrip v = JUndef \<longleftrightarrow> v = JUndef"
  by (cases v) auto

lemma json_roundtrip_idem: "json_roundtrip (json_roundtrip v) = json_roundtrip v"
proof (induction v)
  case (JArr xs)
  then show ?case by (induction xs) auto
next
  case (JObj kvs)
  have "filter (\<lambda>p. snd p \<noteq> JUndef) (map (\<lambda>p. (fst p, json_roundtrip (snd p))) ys)
          = map (\<lambda>p. (fst p, json_roundtrip (snd p))) (filter (\<lambda>p. snd p \<noteq> JUndef) ys)"
    for ys :: "(string \<times> jsval) list"
    by (induction ys) auto
  moreover from JObj have
    "\<forall>p\<in>set kvs. json_roundtrip (json_roundtrip (snd p)) = json_roundtrip (snd p)"
    by (auto simp: snds.simps)
  ultimately show ?case
    by (auto simp: comp_def)
qed simp_all

lemma json_roundtrip_id: "is_json v \<Longrightarrow> json_roundtrip v = v"
proof (induction v)
  case (JArr xs)
  then show ?case by (induction xs) auto
next
  case (JObj kvs)
  then have "map (\<lambda>p. (fst p, json_roundtrip (snd p))) ys = ys \<and> filter (\<lambda>p. snd p \<noteq> JUndef) ys = ys"
    if "set ys \<subseteq> set kvs" for ys
    using that by (induction ys) (auto simp: snds.simps list_all_iff)
  then show ?case by simp
qed simp_all

lemma roundtrip_defined:
  "json_roundtrip v = JObj kvs \<Longrightarrow> \<forall>p\<in>set kvs. snd p \<noteq> JUndef"
  by (cases v) (auto simp: eq_commute [of JUndef])

lemma roundtrip_is_string:
  "(if x = JUndef then JNull else json_roundtrip x) = JStr d \<longleftrightarrow> x = JStr d"
  by (cases x) auto

lemma count_roundtrip:
  "count_list (map (\<lambda>x. if x = JUndef then JNull else json_roundtrip x) xs) (JStr d)
     = count_list xs (JStr d)"
  by (induction xs) (simp_all add: roundtrip_is_string del: json_roundtrip.simps)

lemma roundtrip_elements_idem:
  "map (\<lambda>x. if x = JUndef then JNull else json_roundtrip x)
     (map (\<lambda>x. if x = JUndef then JNull else json_roundtrip x) xs)
   = map (\<lambda>x. if x = JUndef then JNull else json_roundtrip x) xs"
  by (induction xs) (auto simp: json_roundtrip_idem)

lemma field_defined: "field v k \<noteq> JUndef \<Longrightarrow> \<not> nullish v"
  by (cases v) auto

lemma field_set_field:
  "field (set_field (JObj kvs) k v) k' = (if k' = k then v else field (JObj kvs) k')"
  by (simp add: map_of_map_set)

lemma set_field_defined:
  "v \<noteq> JUndef \<Longrightarrow> \<forall>p\<in>set kvs. snd p \<noteq> JUndef \<Longrightarrow>
     \<exists>kvs'. set_field (JObj kvs) k v = JObj kvs' \<and> (\<forall>p\<in>set kvs'. snd p \<noteq> JUndef)"
proof -
  have "\<forall>p\<in>set (map_set k v kvs). snd p \<noteq> JUndef"
    if "v \<noteq> JUndef" and "\<forall>p\<in>set kvs. snd p \<noteq> JUndef"
    using that by (induction kvs) auto
  then show "v \<noteq> JUndef \<Longrightarrow> \<forall>p\<in>set kvs. snd p \<noteq> JUndef \<Longrightarrow> ?thesis"
    by simp
qed

lemma field_roundtrip:
  assumes "\<forall>p\<in>set kvs. snd p \<noteq> JUndef"
  shows "field (json_roundtrip (JObj kvs)) k = json_roundtrip (field (JObj kvs) k)"
proof -
  from assms have "filter (\<lambda>p. snd p \<noteq> JUndef) kvs = kvs"
    by (induction kvs) auto
  moreover have "map_of (map (\<lambda>p. (fst p, json_roundtrip (snd p))) kvs) k
                   = map_option json_roundtrip (map_of kvs k)"
    by (induction kvs) auto
  ultimately show ?thesis
    by (simp split: option.splits)
qed

section \<open>Stages of the handlers\<close>

lemma increment_D: "increment obj k w = (r, w') \<Longrightarrow> w' = w"
  by (auto simp: increment_def bnd_def deref_def ret_def throw_def unmodelled_def
           split: prod.splits outcome.splits if_splits jsnum.splits dest: to_number_D)

lemma add_domain_D: "add_domain stats d w = (r, w') \<Longrightarrow> w' = w"
  by (auto simp: add_domain_def bnd_def to_string_io_def ret_def throw_def
           split: jsval.splits if_splits option.splits prod.splits outcome.splits)

lemma add_proxy_usage_D:
  "add_proxy_usage stats p d t w = (r, w') \<Longrightarrow>
     fs w' = fs w \<and> store w' = store w \<and> dirname w' = dirname w \<and> now w \<le> now w'"
  by (auto simp: add_proxy_usage_def bnd_def deref_def array_push_def ret_def throw_def
           split: prod.splits outcome.splits if_splits jsval.splits dest!: Date_now_D)

lemma update_stats_D:
  "update_stats req stats0 w = (r, w') \<Longrightarrow>
     fs w' = fs w \<and> store w' = store w \<and> dirname w' = dirname w \<and> now w \<le> now w'"
  by (auto simp: update_stats_def bnd_def ret_def
           split: prod.splits outcome.splits if_splits
           dest!: increment_D add_domain_D add_proxy_usage_D)

lemma read_stats_D: "read_stats p w = (r, w') \<Longrightarrow> w' = w"
  by (auto simp: read_stats_def bnd_def existsSync_def ret_def split: if_splits dest: read_json_D)

lemma save_user_frame:
  "save_user w0 req eid w = (r, w') \<Longrightarrow>
     requests (store w') = requests (store w) \<and> errors (store w') = errors (store w)
     \<and> events (store w') = events (store w) \<and> dirname w' = dirname w \<and> now w \<le> now w'"
  unfolding save_user_def Let_def
  by (auto simp: bnd_def existsSync_def ret_def deref_def throw_def users_set_def
                 write_json_def writeFileSync_def update_store_def unmodelled_def
           split: prod.splits outcome.splits if_splits sum.splits
           dest!: read_json_D Date_now_D)

lemma persist_analytics_frame:
  "persist_analytics w0 req eid w = (r, w') \<Longrightarrow>
     store w' = store w \<and> dirname w' = dirname w \<and> now w \<le> now w'"
  unfolding persist_analytics_def Let_def
  by (auto simp: bnd_def ensure_dir_def existsSync_def ret_def throw_def to_string_io_def
                 mkdirSync_def write_json_def writeFileSync_def
           split: prod.splits outcome.splits if_splits sum.splits option.splits
           dest!: Date_now_D)

section \<open>Totals of the dashboard\<close>

lemma total_length_sum: "total_length m = (\<Sum>p\<leftarrow>m. length (snd p))"
proof -
  have "foldl (\<lambda>acc arr. acc + length arr) a xs = a + (\<Sum>x\<leftarrow>xs. length x)"
    for a and xs :: "jsval list list"
    by (induction xs arbitrary: a) auto
  then show ?thesis by (simp add: total_length_def comp_def)
qed

lemma total_length_map_set_new:
  "map_of m k = None \<Longrightarrow> total_length (map_set k zs m) = total_length m + length zs"
  by (induction m) (auto simp: total_length_sum split: if_splits)

lemma total_length_map_set_old:
  "map_of m k = Some ys \<Longrightarrow> total_length (map_set k (ys @ xs) m) = total_length m + length xs"
  by (induction m) (auto simp: total_length_sum split: if_splits)

lemma total_length_push:
  "total_length (push_seq k xs (ensure_seq k m)) = total_length m + length xs"
proof (cases "map_of m k")
  case None
  then show ?thesis
    using total_length_map_set_new [of m k "[]"]
          total_length_map_set_old [of "map_set k [] m" k "[]" xs]
    by (simp add: push_seq_def ensure_seq_def get_seq_def map_of_map_set)
next
  case (Some ys)
  then show ?thesis
    using total_length_map_set_old [of m k ys xs]
    by (simp add: push_seq_def ensure_seq_def get_seq_def)
qed

lemma get_dashboard_D:
  assumes "get_dashboard w = (DashboardJson d, w')"
  shows "totalRequests d = total_length (requests (store w))"
    and "totalErrors d = total_length (errors (store w))"
    and "\<exists>tbl. tally_domains (concat (map snd (requests (store w)))) [] = Inr tbl
               \<and> topDomains d = top10 tbl"
    and "\<exists>names. readdirSync (USERS_DIR w) w = (Return names, w) \<and> totalUsers d = length names"
proof -
  from assms have run:
    "bnd (readdirSync (USERS_DIR w)) (\<lambda>names.
        bnd (count_active (map snd (users (store w)))) (\<lambda>active.
        bnd (lift (tally_hosts (map snd (users (store w))) [])) (\<lambda>proxyUsage_tbl.
        bnd (lift (tally_domains (concat (map snd (requests (store w)))) [])) (\<lambda>domainStats.
        if recent_events_throws (concat (map snd (events (store w)))) then throw TypeError
        else if order_open proxyUsage_tbl \<or> order_open domainStats then unmodelled
        else
        ret (DashboardJson
               \<lparr>totalUsers = length names,
                activeUsers = active,
                totalRequests = total_length (requests (store w)),
                totalErrors = total_length (errors (store w)),
                proxyUsage = top10 proxyUsage_tbl,
                topDomains = top10 domainStats\<rparr>))))) w = (Return (DashboardJson d), w')"
    unfolding get_dashboard_def by (intro try_catch_ReturnD) auto
  then obtain names w1 active w2 hosts w3 doms w4 where
    r1: "readdirSync (USERS_DIR w) w = (Return names, w1)" and
    r3: "lift (tally_hosts (map snd (users (store w))) []) w2 = (Return hosts, w3)" and
    r4: "lift (tally_domains (concat (map snd (requests (store w)))) []) w3 = (Return doms, w4)" and
    r5: "(if recent_events_throws (concat (map snd (events (store w)))) then throw TypeError
          else if order_open hosts \<or> order_open doms then unmodelled
          else ret (DashboardJson
               \<lparr>totalUsers = length names,
                activeUsers = active,
                totalRequests = total_length (requests (store w)),
                totalErrors = total_length (errors (store w)),
                proxyUsage = top10 hosts,
                topDomains = top10 doms\<rparr>)) w4 = (Return (DashboardJson d), w')"
    by (elim bnd_ReturnE)
  from r5 have d: "d = \<lparr>totalUsers = length names,
                activeUsers = active,
                totalRequests = total_length (requests (store w)),
                totalErrors = total_length (errors (store w)),
                proxyUsage = top10 hosts,
                topDomains = top10 doms\<rparr>"
    by (auto simp: ret_def throw_def unmodelled_def split: if_splits)
  from r1 have w1: "w1 = w"
    by (auto simp: readdirSync_def split: if_splits option.splits node.splits)
  from r4 have "tally_domains (concat (map snd (requests (store w)))) [] = Inr doms"
    by (auto simp: lift_def ret_def throw_def split: sum.splits)
  with d r1 w1 show "totalRequests d = total_length (requests (store w))"
    and "totalErrors d = total_length (errors (store w))"
    and "\<exists>tbl. tally_domains (concat (map snd (requests (store w)))) [] = Inr tbl
               \<and> topDomains d = top10 tbl"
    and "\<exists>names. readdirSync (USERS_DIR w) w = (Return names, w) \<and> totalUsers d = length names"
    by auto
qed

lemma post_stats_requests:
  assumes "post_stats req w = (Json 200 a, w')"
  shows "\<exists>eid. field (body req) ''extensionId'' = JStr eid
           \<and> requests (store w') = push_seq eid [body req] (ensure_seq eid (requests (store w)))"
  using assms unfolding post_stats_def Let_def
  by (auto dest!: try_catch_JsonD deref_D path_arg_D ensure_dir_frame read_stats_D update_stats_D
                  save_user_frame write_json_D update_store_D ret_D
           elim!: bnd_ReturnE
           simp: id_required_def requests_ensure_def requests_push_def
           split: if_splits)

lemma post_analytics_request:
  assumes "post_analytics req w = (Json 200 a, w')"
    and "field (body req) ''type'' = JStr ''request''"
  shows "\<exists>eid. field (body req) ''extensionId'' = JStr eid
           \<and> requests (store w')
               = push_seq eid [field (body req) ''data''] (ensure_seq eid (requests (store w)))"
  using assms unfolding post_analytics_def
  by (auto dest!: try_catch_JsonD deref_D path_arg_D persist_analytics_frame update_store_D ret_D
           elim!: bnd_ReturnE
           simp: id_required_def route_def requests_ensure_def requests_push_def
           split: if_splits)

text \<open>
  Whenever GET /api/dashboard answers with a report, its \<^verbatim>\<open>totalRequests\<close> is the sum of
  the lengths of all request sequences in the in-memory map, whatever the state. Every
  successful POST /api/stats, and every successful POST /api/analytics of type \<^verbatim>\<open>request\<close>,
  appends one payload and so raises that sum by one. After five stats calls on a freshly
  started process, three for \<^verbatim>\<open>ext1\<close> and two for \<^verbatim>\<open>ext2\<close>, the dashboard reports
  \<^verbatim>\<open>totalRequests\<close> 5.
\<close>

theorem dashboard_totalRequests:
  "(get_dashboard w = (DashboardJson d, w') \<longrightarrow>
      totalRequests d = (\<Sum>p\<leftarrow>requests (store w). length (snd p)))
   \<and> (post_stats req w = (Json 200 a, w1) \<longrightarrow>
      (\<Sum>p\<leftarrow>requests (store w1). length (snd p))
        = (\<Sum>p\<leftarrow>requests (store w). length (snd p)) + 1)
   \<and> (post_analytics req w = (Json 200 a, w1) \<and> field (body req) ''type'' = JStr ''request'' \<longrightarrow>
      (\<Sum>p\<leftarrow>requests (store w1). length (snd p))
        = (\<Sum>p\<leftarrow>requests (store w). length (snd p)) + 1)
   \<and> map_option totalRequests
        (report (fst (get_dashboard (after_calls post_stats five_calls fresh_world)))) = Some 5"
proof (intro conjI impI)
  assume "get_dashboard w = (DashboardJson d, w')"
  then show "totalRequests d = (\<Sum>p\<leftarrow>requests (store w). length (snd p))"
    by (simp add: get_dashboard_D(1) total_length_sum)
next
  assume "post_stats req w = (Json 200 a, w1)"
  then obtain eid where
    "requests (store w1) = push_seq eid [body req] (ensure_seq eid (requests (store w)))"
    using post_stats_requests by blast
  then show "(\<Sum>p\<leftarrow>requests (store w1). length (snd p))
               = (\<Sum>p\<leftarrow>requests (store w). length (snd p)) + 1"
    using total_length_push [of eid "[body req]" "requests (store w)"]
    by (simp add: total_length_sum)
next
  assume "post_analytics req w = (Json 200 a, w1) \<and> field (body req) ''type'' = JStr ''request''"
  then obtain eid where
    "requests (store w1)
       = push_seq eid [field (body req) ''data''] (ensure_seq eid (requests (store w)))"
    using post_analytics_request by blast
  then show "(\<Sum>p\<leftarrow>requests (store w1). length (snd p))
               = (\<Sum>p\<leftarrow>requests (store w). length (snd p)) + 1"
    using total_length_push [of eid "[field (body req) ''data'']" "requests (store w)"]
    by (simp add: total_length_sum)
next
  show "map_option totalRequests
          (report (fst (get_dashboard (after_calls post_stats five_calls fresh_world)))) = Some 5"
    by code_simp
qed

theorem dashboard_totalRequests_witness:
  "get_dashboard (after_calls post_stats five_calls fresh_world)
     = (DashboardJson
          \<lparr>totalUsers = 0, activeUsers = 0, totalRequests = 5, totalErrors = 0, proxyUsage = [],
           topDomains = [(''a.com'', Count 3), (''c.net'', Count 1), (''b.org'', Count 1)]\<rparr>,
        after_calls post_stats five_calls fresh_world)
   \<and> (5::nat) = (\<Sum>p\<leftarrow>requests (store (after_calls post_stats five_calls fresh_world)). length (snd p))
   \<and> fst (post_stats (stats_call ''ext1'' ''a.com'') fresh_world)
       = Json 200 (JObj [(''success'', JBool True)])
   \<and> (\<Sum>p\<leftarrow>requests (store (snd (post_stats (stats_call ''ext1'' ''a.com'') fresh_world))). length (snd p))
       = (\<Sum>p\<leftarrow>requests (store fresh_world). length (snd p)) + 1
   \<and> fst (post_analytics request_call fresh_world)
       = Json 200 (JObj [(''success'', JBool True), (''received'', JBool True)])
   \<and> field (body request_call) ''type'' = JStr ''request''
   \<and> (\<Sum>p\<leftarrow>requests (store (snd (post_analytics request_call fresh_world))). length (snd p))
       = (\<Sum>p\<leftarrow>requests (store fresh_world). length (snd p)) + 1"
proof -
  have h1: "get_dashboard (after_calls post_stats five_calls fresh_world)
     = (DashboardJson
          \<lparr>totalUsers = 0, activeUsers = 0, totalRequests = 5, totalErrors = 0, proxyUsage = [],
           topDomains = [(''a.com'', Count 3), (''c.net'', Count 1), (''b.org'', Count 1)]\<rparr>,
        after_calls post_stats five_calls fresh_world)"
    by code_simp
  have h2: "post_stats (stats_call ''ext1'' ''a.com'') fresh_world
     = (Json 200 (JObj [(''success'', JBool True)]),
        snd (post_stats (stats_call ''ext1'' ''a.com'') fresh_world))"
    by code_simp
  have h3: "post_analytics request_call fresh_world
     = (Json 200 (JObj [(''success'', JBool True), (''received'', JBool True)]),
        snd (post_analytics request_call fresh_world))"
    by code_simp
  have h4: "field (body request_call) ''type'' = JStr ''request''"
    by (simp add: request_call_def analytics_call_def json_request_def)
  from h2 have h2': "fst (post_stats (stats_call ''ext1'' ''a.com'') fresh_world)
                       = Json 200 (JObj [(''success'', JBool True)])"
    by (metis fst_conv)
  from h3 have h3': "fst (post_analytics request_call fresh_world)
                       = Json 200 (JObj [(''success'', JBool True), (''received'', JBool True)])"
    by (metis fst_conv)
  show ?thesis
    using dashboard_totalRequests
            [where w = "after_calls post_stats five_calls fresh_world"
               and d = "\<lparr>totalUsers = 0, activeUsers = 0, totalRequests = 5, totalErrors = 0,
                         proxyUsage = [],
                         topDomains = [(''a.com'', Count 3), (''c.net'', Count 1), (''b.org'', Count 1)]\<rparr>"
               and w' = "after_calls post_stats five_calls fresh_world"]
          dashboard_totalRequests
            [where req = "stats_call ''ext1'' ''a.com''" and w = fresh_world
               and a = "JObj [(''success'', JBool True)]"
               and ?w1.0 = "snd (post_stats (stats_call ''ext1'' ''a.com'') fresh_world)"]
          dashboard_totalRequests
            [where req = request_call and w = fresh_world
               and a = "JObj [(''success'', JBool True), (''received'', JBool True)]"
               and ?w1.0 = "snd (post_analytics request_call fresh_world)"]
          h1 h2 h2' h3 h3' h4
    by simp
qed

text \<open>
  C1. On the specification's scenario the dashboard reports as claimed: after five stats
  calls, three for \<^verbatim>\<open>ext1\<close> and two for \<^verbatim>\<open>ext2\<close>, \<^verbatim>\<open>totalRequests\<close> is 5. But not every
  state that ingestion calls reach lets the dashboard report at all. The handler that sums
  the sequence lengths also reads \<^verbatim>\<open>req.domain\<close> of every stored payload and uses it as a
  property key (lines 237 and 238), in the same \<^verbatim>\<open>try\<close> block. An analytics call of type
  \<^verbatim>\<open>request\<close> without \<^verbatim>\<open>data\<close> is acknowledged and stores \<^verbatim>\<open>undefined\<close>; a stats call whose
  domain is the object \<^verbatim>\<open>{"toString": 1}\<close> is acknowledged and stores a payload whose domain
  cannot be converted to a key. After either call on a freshly started process the sum of
  the sequence lengths is 1, and the dashboard answers with status 500 instead of a report
  with \<^verbatim>\<open>totalRequests\<close> 1.
\<close>

theorem dashboard_fails_on_stored_payload:
  "map_option totalRequests
     (report (fst (get_dashboard (after_calls post_stats five_calls fresh_world)))) = Some 5
   \<and> fst (post_analytics request_without_data fresh_world)
       = Json 200 (JObj [(''success'', JBool True), (''received'', JBool True)])
   \<and> (\<Sum>p\<leftarrow>requests (store (snd (post_analytics request_without_data fresh_world))).
          length (snd p)) = 1
   \<and> fst (get_dashboard (snd (post_analytics request_without_data fresh_world)))
       = ServerError TypeError
   \<and> fst (post_stats object_domain_call fresh_world) = Json 200 (JObj [(''success'', JBool True)])
   \<and> (\<Sum>p\<leftarrow>requests (store (snd (post_stats object_domain_call fresh_world))).
          length (snd p)) = 1
   \<and> fst (get_dashboard (snd (post_stats object_domain_call fresh_world)))
       = ServerError TypeError"
  by code_simp

section \<open>The domain ranking\<close>

text \<open>
  Away from the inherited keys the tally is a count: each key that is not a property of
  \<^verbatim>\<open>Object.prototype\<close> ends up with the number of payloads tallied under it.
\<close>

lemma distinct_map_set:
  "distinct (map fst m) \<Longrightarrow> distinct (map fst (map_set k v m))"
proof (induction m)
  case (Cons p m)
  have "fst ` set (map_set k v m) \<subseteq> insert k (fst ` set m)"
    by (induction m) auto
  with Cons show ?case by auto
qed simp

lemma tally_plain:
  assumes "object_prototype k = None" and "\<forall>p\<in>set tbl. \<exists>n. snd p = Count n \<and> 0 < n"
    and "distinct (map fst tbl)"
  shows "map_of (tally k tbl)
           = (map_of tbl)(k \<mapsto> Count (case map_of tbl k of Some c \<Rightarrow> rank (k, c) + 1 | None \<Rightarrow> 1))"
    and "\<forall>p\<in>set (tally k tbl). \<exists>n. snd p = Count n \<and> 0 < n"
    and "distinct (map fst (tally k tbl))"
proof -
  have sets: "set (map_set k v m) \<subseteq> insert (k, v) (set m)" for v and m :: "(string \<times> count) list"
    by (induction m) auto
  show "map_of (tally k tbl)
           = (map_of tbl)(k \<mapsto> Count (case map_of tbl k of Some c \<Rightarrow> rank (k, c) + 1 | None \<Rightarrow> 1))"
    using assms(1,2)
    by (auto simp: tally_def map_of_map_set split: option.splits count.splits dest!: map_of_SomeD)
  show "\<forall>p\<in>set (tally k tbl). \<exists>n. snd p = Count n \<and> 0 < n"
    using assms(1,2) sets
    by (auto simp: tally_def split: option.splits count.splits dest!: map_of_SomeD) fastforce+
  show "distinct (map fst (tally k tbl))"
    using assms(1,3)
    by (auto simp: tally_def distinct_map_set split: option.splits count.splits inherited.splits)
qed

lemma tally_domains_counts:
  assumes "tally_domains rs tbl0 = Inr tbl"
    and "\<forall>r\<in>set rs. \<forall>k. domain_key r = Some k \<longrightarrow> object_prototype k = None"
    and "\<forall>p\<in>set tbl0. \<exists>n. snd p = Count n \<and> 0 < n" and "distinct (map fst tbl0)"
  shows "(\<forall>p\<in>set tbl. \<exists>n. snd p = Count n \<and> 0 < n) \<and> distinct (map fst tbl)
         \<and> (\<forall>k. (case map_of tbl k of Some c \<Rightarrow> rank (k, c) | None \<Rightarrow> 0)
                  = (case map_of tbl0 k of Some c \<Rightarrow> rank (k, c) | None \<Rightarrow> 0) + occurrences k rs)"
  using assms
proof (induction rs arbitrary: tbl0)
  case Nil
  then show ?case by (simp add: occurrences_def)
next
  case (Cons r rs)
  show ?case
  proof (cases "domain_key r")
    case None
    with Cons.prems(1) have "tally_domains rs tbl0 = Inr tbl"
      by (auto simp: domain_key_def split: if_splits option.splits)
    from Cons.IH [OF this] Cons.prems(2-4) None show ?thesis
      by (simp add: occurrences_def)
  next
    case (Some k)
    with Cons.prems(1) have run: "tally_domains rs (tally k tbl0) = Inr tbl"
      by (auto simp: domain_key_def split: if_splits option.splits)
    from Some Cons.prems(2) have plain: "object_prototype k = None" by simp
    note t = tally_plain [OF plain Cons.prems(3,4)]
    from Cons.IH [OF run _ t(2,3)] Cons.prems(2)
    have ih: "(\<forall>p\<in>set tbl. \<exists>n. snd p = Count n \<and> 0 < n) \<and> distinct (map fst tbl)
         \<and> (\<forall>k'. (case map_of tbl k' of Some c \<Rightarrow> rank (k', c) | None \<Rightarrow> 0)
                  = (case map_of (tally k tbl0) k' of Some c \<Rightarrow> rank (k', c) | None \<Rightarrow> 0)
                    + occurrences k' rs)"
      by simp
    have "(case map_of (tally k tbl0) k' of Some c \<Rightarrow> rank (k', c) | None \<Rightarrow> 0) + occurrences k' rs
            = (case map_of tbl0 k' of Some c \<Rightarrow> rank (k', c) | None \<Rightarrow> 0) + occurrences k' (r # rs)"
      for k'
      using Some by (auto simp: t(1) occurrences_def split: option.splits)
    with ih show ?thesis by simp
  qed
qed

lemma insert_by_count_set: "set (insert_by_count x ys) = insert x (set ys)"
  by (induction ys) auto

lemma insert_by_count_keys:
  "distinct (map fst (insert_by_count x ys)) \<longleftrightarrow> distinct (map fst (x # ys))"
  by (induction ys) (auto simp: insert_by_count_set)

lemma insert_by_count_sorted:
  assumes "sorted_wrt (\<lambda>a b. rank b \<le> rank a) ys"
    and "\<forall>p\<in>set (x # ys). \<exists>n. snd p = Count n"
  shows "sorted_wrt (\<lambda>a b. rank b \<le> rank a) (insert_by_count x ys)"
  using assms
proof (induction ys)
  case (Cons y ys)
  obtain k m where x: "x = (k, Count m)"
    using Cons.prems(2) by (cases x) auto
  obtain k' n where y: "y = (k', Count n)"
    using Cons.prems(2) by (cases y) auto
  show ?case
  proof (cases "compare_count x y \<le> 0")
    case True
    then have "n \<le> m" by (simp add: compare_count_def x y)
    with Cons.prems(1) show ?thesis
      using True by (auto simp: x y)
  next
    case False
    then have "m \<le> n" by (simp add: compare_count_def x y)
    with Cons show ?thesis
      using False by (auto simp: insert_by_count_set x y)
  qed
qed simp

lemma sort_by_count_props:
  assumes "\<forall>p\<in>set xs. \<exists>n. snd p = Count n"
  shows "sorted_wrt (\<lambda>a b. rank b \<le> rank a) (sort_by_count xs)"
    and "set (sort_by_count xs) = set xs"
    and "distinct (map fst (sort_by_count xs)) \<longleftrightarrow> distinct (map fst xs)"
proof -
  have "sorted_wrt (\<lambda>a b. rank b \<le> rank a) (foldr insert_by_count xs [])
          \<and> set (foldr insert_by_count xs []) = set xs
          \<and> (distinct (map fst (foldr insert_by_count xs [])) \<longleftrightarrow> distinct (map fst xs))"
    using assms
  proof (induction xs)
    case (Cons x xs)
    then show ?case
      using insert_by_count_sorted [of "foldr insert_by_count xs []" x]
      by (simp add: insert_by_count_set insert_by_count_keys)
  qed simp
  then show "sorted_wrt (\<lambda>a b. rank b \<le> rank a) (sort_by_count xs)"
    and "set (sort_by_count xs) = set xs"
    and "distinct (map fst (sort_by_count xs)) \<longleftrightarrow> distinct (map fst xs)"
    by (simp_all add: sort_by_count_def)
qed

lemma own_keys_order_props:
  "set (own_keys_order kvs) = set kvs"
  "distinct (map fst kvs) \<Longrightarrow> distinct (map fst (own_keys_order kvs))"
  by (auto simp: own_keys_order_def distinct_map inj_on_def)

text \<open>
  The ranking of a successful dashboard call, for stored payloads none of which is tallied
  under an inherited key: the first ten of a list that holds every tallied key once, with
  the number of payloads tallied under it, in descending order of that number.
\<close>

lemma topDomains_ranking:
  assumes "get_dashboard w = (DashboardJson d, w')"
    and "\<forall>r\<in>set (concat (map snd (requests (store w)))).
           \<forall>k. domain_key r = Some k \<longrightarrow> object_prototype k = None"
  shows "\<exists>entries.
           topDomains d = take 10 entries
           \<and> sorted_wrt (\<lambda>a b. rank b \<le> rank a) entries
           \<and> distinct (map fst entries)
           \<and> set entries
               = {(k, Count (occurrences k (concat (map snd (requests (store w)))))) | k.
                    0 < occurrences k (concat (map snd (requests (store w))))}"
proof -
  let ?rs = "concat (map snd (requests (store w)))"
  from get_dashboard_D(3) [OF assms(1)] obtain tbl where
    tbl: "tally_domains ?rs [] = Inr tbl" and top: "topDomains d = top10 tbl"
    by blast
  from tally_domains_counts [OF tbl assms(2)] have
    counts: "\<forall>p\<in>set tbl. \<exists>n. snd p = Count n \<and> 0 < n" and
    dist: "distinct (map fst tbl)" and
    occ: "\<And>k. (case map_of tbl k of Some c \<Rightarrow> rank (k, c) | None \<Rightarrow> 0) = occurrences k ?rs"
    by simp_all
  let ?entries = "sort_by_count (own_keys_order tbl)"
  have all: "\<forall>p\<in>set (own_keys_order tbl). \<exists>n. snd p = Count n"
    using counts by (auto simp: own_keys_order_props(1))
  note sorted = sort_by_count_props [OF all]
  have d2: "distinct (map fst ?entries)"
    using sorted(3) own_keys_order_props(2) [OF dist] by simp
  have "set tbl = {(k, Count (occurrences k ?rs)) | k. 0 < occurrences k ?rs}"
  proof (intro set_eqI iffI)
    fix p assume p: "p \<in> set tbl"
    with counts obtain n where "snd p = Count n" and "0 < n"
      by blast
    then obtain k where kn: "p = (k, Count n)" "0 < n"
      by (metis prod.collapse)
    with p dist have "map_of tbl k = Some (Count n)" by simp
    with occ [of k] have "occurrences k ?rs = n" by simp
    with kn show "p \<in> {(k, Count (occurrences k ?rs)) | k. 0 < occurrences k ?rs}" by auto
  next
    fix p assume "p \<in> {(k, Count (occurrences k ?rs)) | k. 0 < occurrences k ?rs}"
    then obtain k where k: "p = (k, Count (occurrences k ?rs))" "0 < occurrences k ?rs"
      by auto
    with occ [of k] obtain c where c: "map_of tbl k = Some c" "rank (k, c) = occurrences k ?rs"
      by (auto split: option.splits)
    from c(1) have "(k, c) \<in> set tbl" by (rule map_of_SomeD)
    with counts c(2) have "c = Count (occurrences k ?rs)" by auto
    with \<open>(k, c) \<in> set tbl\<close> k show "p \<in> set tbl" by simp
  qed
  with sorted(1,2) d2 top show ?thesis
    by (intro exI [of _ ?entries]) (simp add: top10_def own_keys_order_props(1))
qed

text \<open>
  C2. On the specification's scenario the ranking is as claimed: three stats calls with the
  domain \<^verbatim>\<open>example.com\<close> give the entry \<^verbatim>\<open>example.com\<close> with count 3. The tally is kept in
  an object literal, though, and \<^verbatim>\<open>domainStats[d] || 0\<close> finds the properties that every
  object inherits. After one stats call with the domain \<^verbatim>\<open>constructor\<close> the entry's count is
  not 1 but the string made of the source text of \<^verbatim>\<open>Object\<close> and the character 1; a second
  call appends another 1. The tally also reads \<^verbatim>\<open>req.domain\<close> of every stored payload
  without a check: after an analytics call of type \<^verbatim>\<open>request\<close> without \<^verbatim>\<open>data\<close>, which
  stores \<^verbatim>\<open>undefined\<close>, the dashboard is answered with status 500 and no ranking at all.
\<close>

theorem domain_tally_inherited_keys:
  "map_option topDomains
     (report (fst (get_dashboard (after_calls post_stats example_calls fresh_world))))
     = Some [(''example.com'', Count 3)]
   \<and> map_option topDomains
        (report (fst (get_dashboard
           (after_calls post_stats [stats_call ''ext1'' ''constructor''] fresh_world))))
       = Some [(''constructor'', Junk ''function Object() { [native code] }1'')]
   \<and> map_option topDomains
        (report (fst (get_dashboard
           (after_calls post_stats
              [stats_call ''ext1'' ''constructor'', stats_call ''ext1'' ''constructor'']
              fresh_world))))
       = Some [(''constructor'', Junk ''function Object() { [native code] }11'')]
   \<and> fst (post_analytics request_without_data fresh_world)
       = Json 200 (JObj [(''success'', JBool True), (''received'', JBool True)])
   \<and> fst (get_dashboard (snd (post_analytics request_without_data fresh_world)))
       = ServerError TypeError"
  by code_simp

section \<open>Analytics batches\<close>

lemma get_seq_push: "get_seq (push_seq k xs (ensure_seq k m)) k = get_seq m k @ xs"
  by (simp add: get_seq_def push_seq_def ensure_seq_def map_of_map_set split: option.splits)

text \<open>The handler once the event file has been written: only the switch remains.\<close>

lemma post_analytics_persisted:
  assumes "field (body req) ''extensionId'' = JStr eid" and "eid \<noteq> []"
    and "persist_analytics w req eid w = (Return (), w1)"
  shows "post_analytics req w
           = try_catch
               (bnd (route (field (body req) ''type'') (field (body req) ''data'') eid) (\<lambda>_.
                ret (Json 200 (JObj [(''success'', JBool True), (''received'', JBool True)])))) w1"
proof -
  from assms(1) have "\<not> nullish (body req)"
    by (intro field_defined [of _ "''extensionId''"]) simp
  then show ?thesis
    using assms
    by (simp add: post_analytics_def path_arg_def try_catch_def bnd_Return_step)
qed

text \<open>
  What holds of the batch branch: once the event file is written, an array under
  \<^verbatim>\<open>data.requests\<close> is appended in order to the client's request sequence whatever happens
  afterwards; when \<^verbatim>\<open>data.errors\<close> is an array as well, it is appended to the error sequence
  and the call is acknowledged.
\<close>

lemma batch_requests_appended:
  assumes "field (body req) ''extensionId'' = JStr eid" and "eid \<noteq> []"
    and "persist_analytics w req eid w = (Return (), w1)"
    and "field (body req) ''type'' = JStr ''batch''"
    and "field (field (body req) ''data'') ''requests'' = JArr rs"
  shows "requests (store (snd (post_analytics req w)))
           = push_seq eid rs (ensure_seq eid (requests (store w)))"
proof -
  from assms(5) have "\<not> nullish (field (body req) ''data'')"
    by (intro field_defined [of _ "''requests''"]) simp
  moreover from persist_analytics_frame [OF assms(3)] have "store w1 = store w" by simp
  ultimately show ?thesis
    unfolding post_analytics_persisted [OF assms(1-3)]
    using assms(4,5)
    by (auto simp: route_def read_prop_def spread_def try_catch_def bnd_def ret_def throw_def
                   requests_ensure_def requests_push_def errors_ensure_def errors_push_def
                   update_store_def
             split: prod.splits outcome.splits jsval.splits if_splits)
qed

lemma batch_arrays_appended:
  assumes "field (body req) ''extensionId'' = JStr eid" and "eid \<noteq> []"
    and "persist_analytics w req eid w = (Return (), w1)"
    and "field (body req) ''type'' = JStr ''batch''"
    and "field (field (body req) ''data'') ''requests'' = JArr rs"
    and "field (field (body req) ''data'') ''errors'' = JArr es"
  shows "fst (post_analytics req w)
           = Json 200 (JObj [(''success'', JBool True), (''received'', JBool True)])"
    and "requests (store (snd (post_analytics req w)))
           = push_seq eid rs (ensure_seq eid (requests (store w)))"
    and "errors (store (snd (post_analytics req w)))
           = push_seq eid es (ensure_seq eid (errors (store w)))"
proof -
  from assms(5) have "\<not> nullish (field (body req) ''data'')"
    by (intro field_defined [of _ "''requests''"]) simp
  moreover from persist_analytics_frame [OF assms(3)] have "store w1 = store w" by simp
  ultimately show "fst (post_analytics req w)
           = Json 200 (JObj [(''success'', JBool True), (''received'', JBool True)])"
    and "requests (store (snd (post_analytics req w)))
           = push_seq eid rs (ensure_seq eid (requests (store w)))"
    and "errors (store (snd (post_analytics req w)))
           = push_seq eid es (ensure_seq eid (errors (store w)))"
    unfolding post_analytics_persisted [OF assms(1-3)]
    using assms(4-6)
    by (simp_all add: route_def read_prop_def spread_def try_catch_def bnd_def ret_def
                   requests_ensure_def requests_push_def errors_ensure_def errors_push_def
                   update_store_def)
qed

text \<open>
  C3. The batch branch tests \<^verbatim>\<open>data.requests\<close> and \<^verbatim>\<open>data.errors\<close> for truthiness, not for
  being arrays, and spreads them. With \<^verbatim>\<open>requests: 5\<close> the spread throws before the errors
  are looked at: the array under \<^verbatim>\<open>data.errors\<close> is not appended, and the call is answered
  with status 500. The specification's own scenario, two requests and one error, does raise
  the dashboard's \<^verbatim>\<open>totalRequests\<close> by 2 and \<^verbatim>\<open>totalErrors\<close> by 1.
\<close>

theorem batch_errors_not_appended:
  "field (field (body batch_with_number) ''data'') ''errors'' = JArr [JObj [(''e'', JNum 1)]]
   \<and> fst (post_analytics batch_with_number fresh_world) = ServerError TypeError
   \<and> errors (store (snd (post_analytics batch_with_number fresh_world))) = []
   \<and> requests (store (snd (post_analytics batch_with_number fresh_world))) = [(''ext1'', [])]
   \<and> map_option totalErrors
        (report (fst (get_dashboard (snd (post_analytics batch_with_number fresh_world)))))
       = Some 0
   \<and> map_option (\<lambda>d. (totalRequests d, totalErrors d))
        (report (fst (get_dashboard (snd (post_analytics batch_two_one fresh_world)))))
       = Some (2, 1)"
  by code_simp

section \<open>Validation of the client identifier\<close>

text \<open>
  C4. A POST to /api/logs, /api/stats or /api/analytics whose parsed body carries no
  \<^verbatim>\<open>extensionId\<close> (more generally, a falsy one) is answered with status 400 and the message
  "extensionId required", and the world is left exactly as it was: no file is written, no
  directory is created, and the in-memory maps are untouched. The body is what the JSON body
  parser delivered, an object or an array.
\<close>

theorem missing_extensionId_rejected:
  assumes "\<not> nullish (body req)"
    and "\<not> truthy (field (body req) ''extensionId'')"
  shows "post_logs req w = (Json 400 (JObj [(''error'', JStr ''extensionId required'')]), w)
       \<and> post_stats req w = (Json 400 (JObj [(''error'', JStr ''extensionId required'')]), w)
       \<and> post_analytics req w = (Json 400 (JObj [(''error'', JStr ''extensionId required'')]), w)"
  using assms by (simp add: post_logs_def post_stats_def post_analytics_def id_required_def)

theorem missing_extensionId_rejected_witness:
  "post_logs (json_request (JObj [(''message'', JStr ''hello'')])) fresh_world
     = (Json 400 (JObj [(''error'', JStr ''extensionId required'')]), fresh_world)
   \<and> post_stats (json_request (JObj [(''message'', JStr ''hello'')])) fresh_world
     = (Json 400 (JObj [(''error'', JStr ''extensionId required'')]), fresh_world)
   \<and> post_analytics (json_request (JObj [(''message'', JStr ''hello'')])) fresh_world
     = (Json 400 (JObj [(''error'', JStr ''extensionId required'')]), fresh_world)"
  using missing_extensionId_rejected
          [of "json_request (JObj [(''message'', JStr ''hello'')])" fresh_world]
  by (simp add: json_request_def)

section \<open>The Stats Record\<close>

lemma read_stats_before_ensure_dir:
  assumes "ensure_dir p w = (Return u, w1)" and "read_stats q w1 = (Return s, w1')"
  shows "read_stats q w = (Return s, w)"
proof (cases "has_nul q")
  case True
  with assms(2) show ?thesis
    by (simp add: read_stats_def bnd_def existsSync_def ret_def)
next
  case False
  from assms(1) have same:
    "\<And>c. lookup (fs w1) q = Some (File c) \<longleftrightarrow> lookup (fs w) q = Some (File c)"
    by (rule ensure_dir_files)
  from assms(1) have none: "lookup (fs w1) q = None \<Longrightarrow> lookup (fs w) q = None"
    by (auto simp: ensure_dir_def bnd_def existsSync_def ret_def mkdirSync_def
             split: if_splits sum.splits dest: mkdirp_keeps)
  show ?thesis
  proof (cases "lookup (fs w1) q")
    case None
    with none assms(2) False show ?thesis
      by (simp add: read_stats_def bnd_def existsSync_def ret_def)
  next
    case (Some n)
    show ?thesis
    proof (cases n)
      case (File c)
      with Some same have "lookup (fs w) q = Some (File c)" by simp
      with Some File assms(2) False show ?thesis
        by (auto simp: read_stats_def bnd_def existsSync_def ret_def read_json_def
                       readFileSync_def dest: JSON_parse_world)
    next
      case (Dir es)
      with Some assms(2) False show ?thesis
        by (simp add: read_stats_def bnd_def existsSync_def ret_def read_json_def
                      readFileSync_def)
    qed
  qed
qed

lemma post_stats_D:
  assumes "post_stats req w = (Json 200 a, w')"
  shows "\<exists>eid stats wa wb.
           field (body req) ''extensionId'' = JStr eid
           \<and> update_stats req (loaded_stats w eid) wa = (Return stats, wb)
           \<and> lookup (fs w') (stat_file w eid) = Some (File (JsonText stats))
           \<and> stats \<noteq> JUndef \<and> \<not> has_nul (stat_file w eid) \<and> dirname w' = dirname w"
proof -
  from assms have
    "bnd (deref (body req)) (\<lambda>_.
        if \<not> truthy (field (body req) ''extensionId'') then ret id_required
        else
        bnd (path_arg (field (body req) ''extensionId'')) (\<lambda>eid.
        let userStatsDir = path_join (STATS_DIR w) [eid];
            statFile = path_join userStatsDir [''stats.json'']
        in
        bnd (ensure_dir userStatsDir) (\<lambda>_.
        bnd (read_stats statFile) (\<lambda>stats0.
        bnd (update_stats req stats0) (\<lambda>stats.
        bnd (if truthy (field (body req) ''proxyConfig'') then save_user w req eid else ret ()) (\<lambda>_.
        bnd (write_json statFile stats) (\<lambda>_.
        bnd (requests_ensure eid) (\<lambda>_.
        bnd (requests_push eid [body req]) (\<lambda>_.
        ret (Json 200 (JObj [(''success'', JBool True)]))))))))))) w
      = (Return (Json 200 a), w')"
    unfolding post_stats_def by (rule try_catch_JsonD)
  then obtain eid w1 stats0 w2 stats w3 w4 w5 w6 u where
    eid: "field (body req) ''extensionId'' = JStr eid" and
    s1: "ensure_dir (path_join (STATS_DIR w) [eid]) w = (Return (), w1)" and
    s2: "read_stats (stat_file w eid) w1 = (Return stats0, w2)" and
    s3: "update_stats req stats0 w2 = (Return stats, w3)" and
    s4: "(if truthy (field (body req) ''proxyConfig'') then save_user w req eid else ret ()) w3
           = (Return u, w4)" and
    s5: "write_json (stat_file w eid) stats w4 = (Return (), w5)" and
    s6: "requests_ensure eid w5 = (Return (), w6)" and
    s7: "requests_push eid [body req] w6 = (Return (), w')"
    unfolding Let_def stat_file_def
    by (auto elim!: bnd_ReturnE dest!: deref_D path_arg_D ret_D simp: id_required_def
             split: if_splits)
  from read_stats_before_ensure_dir [OF s1 s2] have "loaded_stats w eid = stats0"
    by (simp add: loaded_stats_def)
  moreover note f5 = write_json_D [OF s5]
    and f6 = update_store_D [OF s6 [unfolded requests_ensure_def]]
    and f7 = update_store_D [OF s7 [unfolded requests_push_def]]
  moreover have "dirname w4 = dirname w"
    using ensure_dir_frame [OF s1] read_stats_D [OF s2] update_stats_D [OF s3] s4
    by (auto split: if_splits dest!: save_user_frame ret_D)
  ultimately show ?thesis
    using eid s3 by (intro exI [of _ eid] exI [of _ stats] exI [of _ w2] exI [of _ w3]) simp
qed

lemma increment_Return:
  "increment obj k w = (Return obj', w') \<Longrightarrow> \<exists>v. v \<noteq> JUndef \<and> obj' = set_field obj k v"
  by (auto simp: increment_def bnd_def deref_def ret_def throw_def unmodelled_def
           split: prod.splits outcome.splits if_splits jsnum.splits)

lemma add_proxy_usage_Return:
  "add_proxy_usage stats p d t w = (Return stats', w') \<Longrightarrow>
     \<exists>pu. stats' = set_field stats ''proxyUsage'' (JArr pu)"
  by (auto simp: add_proxy_usage_def bnd_def deref_def array_push_def ret_def throw_def
           split: prod.splits outcome.splits if_splits jsval.splits)

lemma add_domain_Return:
  assumes "add_domain (JObj kvs) (JStr d) w = (Return stats', w')"
    and "field (JObj kvs) ''domains'' = JArr xs"
  shows "stats' = (if JStr d \<in> set xs then JObj kvs
                   else set_field (JObj kvs) ''domains'' (JArr (xs @ [JStr d])))"
  using assms
  by (auto simp: add_domain_def array_includes_def ret_def split: if_splits)

text \<open>
  What the update does to the domain list of a loaded record: a domain that the linear scan
  finds is left alone, any other non-empty domain is put last.
\<close>

lemma update_stats_domains:
  assumes "update_stats req (JObj kvs) w = (Return stats, w')"
    and "field (body req) ''domain'' = JStr d" and "d \<noteq> []"
    and "field (JObj kvs) ''domains'' = JArr xs"
    and "\<forall>p\<in>set kvs. snd p \<noteq> JUndef"
  shows "\<exists>kvs'. stats = JObj kvs' \<and> (\<forall>p\<in>set kvs'. snd p \<noteq> JUndef)
           \<and> field stats ''domains'' = JArr (if JStr d \<in> set xs then xs else xs @ [JStr d])"
proof -
  from assms(1-3) have
    "bnd (increment (JObj kvs) ''totalRequests'') (\<lambda>stats1.
     bnd (add_domain stats1 (JStr d)) (\<lambda>stats2.
     if truthy (field (body req) ''proxy'')
     then add_proxy_usage stats2 (field (body req) ''proxy'') (field (body req) ''domain'')
            (field (body req) ''type'')
     else ret stats2)) w = (Return stats, w')"
    by (simp add: update_stats_def)
  then obtain stats1 w1 stats2 w2 where
    s1: "increment (JObj kvs) ''totalRequests'' w = (Return stats1, w1)" and
    s2: "add_domain stats1 (JStr d) w1 = (Return stats2, w2)" and
    s3: "(if truthy (field (body req) ''proxy'')
          then add_proxy_usage stats2 (field (body req) ''proxy'') (field (body req) ''domain'')
                 (field (body req) ''type'')
          else ret stats2) w2 = (Return stats, w')"
    by (elim bnd_ReturnE)
  from increment_Return [OF s1] obtain v where v: "v \<noteq> JUndef"
    and stats1: "stats1 = set_field (JObj kvs) ''totalRequests'' v"
    by blast
  from set_field_defined [OF v assms(5)] obtain kvs1 where
    kvs1: "stats1 = JObj kvs1" "\<forall>p\<in>set kvs1. snd p \<noteq> JUndef"
    unfolding stats1 by blast
  have d1: "field (JObj kvs1) ''domains'' = JArr xs"
    using assms(4) field_set_field [of kvs "''totalRequests''" v "''domains''"]
    by (simp add: stats1 kvs1(1) [symmetric])
  let ?xs' = "if JStr d \<in> set xs then xs else xs @ [JStr d]"
  from add_domain_Return [OF s2 [unfolded kvs1(1)] d1] have stats2:
    "stats2 = (if JStr d \<in> set xs then JObj kvs1
               else set_field (JObj kvs1) ''domains'' (JArr (xs @ [JStr d])))" .
  have "\<exists>kvs2. stats2 = JObj kvs2 \<and> (\<forall>p\<in>set kvs2. snd p \<noteq> JUndef)
          \<and> field (JObj kvs2) ''domains'' = JArr ?xs'"
  proof (cases "JStr d \<in> set xs")
    case True
    with stats2 kvs1 d1 show ?thesis by simp
  next
    case False
    from set_field_defined [OF _ kvs1(2), of "JArr (xs @ [JStr d])" "''domains''"]
    obtain kvs2 where "set_field (JObj kvs1) ''domains'' (JArr (xs @ [JStr d])) = JObj kvs2"
      and "\<forall>p\<in>set kvs2. snd p \<noteq> JUndef"
      by auto
    moreover have "field (set_field (JObj kvs1) ''domains'' (JArr (xs @ [JStr d]))) ''domains''
                     = JArr (xs @ [JStr d])"
      by (simp add: map_of_map_set)
    ultimately show ?thesis
      using False stats2 by auto
  qed
  then obtain kvs2 where kvs2: "stats2 = JObj kvs2" "\<forall>p\<in>set kvs2. snd p \<noteq> JUndef"
    "field (JObj kvs2) ''domains'' = JArr ?xs'"
    by blast
  show ?thesis
  proof (cases "truthy (field (body req) ''proxy'')")
    case False
    with s3 kvs2 show ?thesis by (auto dest: ret_D)
  next
    case True
    with s3 have "add_proxy_usage stats2 (field (body req) ''proxy'') (field (body req) ''domain'')
                    (field (body req) ''type'') w2 = (Return stats, w')"
      by simp
    from add_proxy_usage_Return [OF this] obtain pu where
      pu: "stats = set_field (JObj kvs2) ''proxyUsage'' (JArr pu)"
      unfolding kvs2(1) by blast
    from set_field_defined [OF _ kvs2(2), of "JArr pu" "''proxyUsage''"]
    obtain kvs3 where "set_field (JObj kvs2) ''proxyUsage'' (JArr pu) = JObj kvs3"
      and "\<forall>p\<in>set kvs3. snd p \<noteq> JUndef"
      by auto
    moreover have "field (set_field (JObj kvs2) ''proxyUsage'' (JArr pu)) ''domains''
                     = JArr ?xs'"
      using kvs2(3) by (simp add: map_of_map_set)
    ultimately show ?thesis
      using pu by auto
  qed
qed

lemma loaded_defined:
  "loaded_stats w eid = JObj kvs \<Longrightarrow> \<forall>p\<in>set kvs. snd p \<noteq> JUndef"
  by (auto simp: loaded_stats_def read_stats_def bnd_def existsSync_def ret_def throw_def
                 read_json_def readFileSync_def JSON_parse_def default_stats_def
           split: if_splits option.splits node.splits content.splits outcome.splits
           dest!: roundtrip_defined)

lemma loaded_after_write:
  assumes "lookup (fs w) (stat_file w eid) = Some (File (JsonText v))" and "v \<noteq> JUndef"
    and "\<not> has_nul (stat_file w eid)"
  shows "loaded_stats w eid = json_roundtrip v"
  using assms
  by (simp add: loaded_stats_def read_stats_def bnd_def existsSync_def read_back)

lemma stat_file_dirname: "dirname w' = dirname w \<Longrightarrow> stat_file w' eid = stat_file w eid"
  by (simp add: stat_file_def STATS_DIR_def DATA_DIR_def)

text \<open>One successful stats call, seen from the record before it to the record after it.\<close>

lemma post_stats_domains:
  assumes call: "post_stats req w = (Json 200 a, w')"
    and eid: "field (body req) ''extensionId'' = JStr eid"
    and dom: "field (body req) ''domain'' = JStr d" "d \<noteq> []"
    and before: "field (loaded_stats w eid) ''domains'' = JArr xs"
  shows "field (loaded_stats w' eid) ''domains''
           = JArr (map (\<lambda>x. if x = JUndef then JNull else json_roundtrip x)
                     (if JStr d \<in> set xs then xs else xs @ [JStr d]))"
proof -
  from post_stats_D [OF call] eid obtain stats wa wb where
    upd: "update_stats req (loaded_stats w eid) wa = (Return stats, wb)" and
    written: "lookup (fs w') (stat_file w eid) = Some (File (JsonText stats))" and
    ok: "stats \<noteq> JUndef" "\<not> has_nul (stat_file w eid)" "dirname w' = dirname w"
    by auto
  from before obtain kvs where kvs: "loaded_stats w eid = JObj kvs"
    by (cases "loaded_stats w eid") auto
  from update_stats_domains [OF upd [unfolded kvs] dom before [unfolded kvs]
                               loaded_defined [OF kvs]]
  obtain kvs' where stats: "stats = JObj kvs'" "\<forall>p\<in>set kvs'. snd p \<noteq> JUndef"
    "field stats ''domains'' = JArr (if JStr d \<in> set xs then xs else xs @ [JStr d])"
    by blast
  have "loaded_stats w' eid = json_roundtrip stats"
    using written ok(1,2) by (intro loaded_after_write) (simp_all add: stat_file_dirname [OF ok(3)])
  then have "field (loaded_stats w' eid) ''domains'' = json_roundtrip (field stats ''domains'')"
    using field_roundtrip [OF stats(2)] by (simp add: stats(1))
  then show ?thesis
    by (simp add: stats(3))
qed

text \<open>
  A call without a domain, or with an empty or otherwise falsy one, changes the counter and
  possibly the proxy usage list, and nothing else of the record.
\<close>

lemma loaded_roundtrip: "json_roundtrip (loaded_stats w eid) = loaded_stats w eid"
  by (auto simp: loaded_stats_def read_stats_def bnd_def existsSync_def ret_def throw_def
                 read_json_def readFileSync_def JSON_parse_def default_stats_def
                 json_roundtrip_idem
           split: if_splits option.splits node.splits content.splits outcome.splits)

lemma field_roundtrip_set_field:
  assumes "k' \<noteq> k"
  shows "field (json_roundtrip (set_field s k v)) k' = field (json_roundtrip s) k'"
proof (cases s)
  case (JObj kvs)
  have "map_of (map (\<lambda>p. (fst p, json_roundtrip (snd p)))
                  (filter (\<lambda>p. snd p \<noteq> JUndef) (map_set k v kvs))) k'
          = map_of (map (\<lambda>p. (fst p, json_roundtrip (snd p)))
                      (filter (\<lambda>p. snd p \<noteq> JUndef) kvs)) k'"
    using assms by (induction kvs) auto
  with JObj show ?thesis by simp
qed simp_all

lemma update_stats_no_domain:
  assumes "update_stats req s w = (Return stats, w')"
    and "\<not> truthy (field (body req) ''domain'')"
  shows "field (json_roundtrip stats) ''domains'' = field (json_roundtrip s) ''domains''"
proof -
  from assms have
    "bnd (increment s ''totalRequests'') (\<lambda>stats1.
     if truthy (field (body req) ''proxy'')
     then add_proxy_usage stats1 (field (body req) ''proxy'') (field (body req) ''domain'')
            (field (body req) ''type'')
     else ret stats1) w = (Return stats, w')"
    by (simp add: update_stats_def bnd_ret)
  then obtain stats1 w1 where
    s1: "increment s ''totalRequests'' w = (Return stats1, w1)" and
    s3: "(if truthy (field (body req) ''proxy'')
          then add_proxy_usage stats1 (field (body req) ''proxy'') (field (body req) ''domain'')
                 (field (body req) ''type'')
          else ret stats1) w1 = (Return stats, w')"
    by (elim bnd_ReturnE)
  from increment_Return [OF s1] obtain v where
    stats1: "stats1 = set_field s ''totalRequests'' v"
    by blast
  have one: "field (json_roundtrip stats1) ''domains'' = field (json_roundtrip s) ''domains''"
    unfolding stats1 by (rule field_roundtrip_set_field) simp
  show ?thesis
  proof (cases "truthy (field (body req) ''proxy'')")
    case False
    with s3 one show ?thesis by (auto dest: ret_D)
  next
    case True
    with s3 have "add_proxy_usage stats1 (field (body req) ''proxy'') (field (body req) ''domain'')
                    (field (body req) ''type'') w1 = (Return stats, w')"
      by simp
    from add_proxy_usage_Return [OF this] obtain pu where
      stats: "stats = set_field stats1 ''proxyUsage'' (JArr pu)"
      by blast
    have "field (json_roundtrip stats) ''domains'' = field (json_roundtrip stats1) ''domains''"
      unfolding stats by (rule field_roundtrip_set_field) simp
    with one show ?thesis by simp
  qed
qed

lemma post_stats_no_domain:
  assumes call: "post_stats req w = (Json 200 a, w')"
    and eid: "field (body req) ''extensionId'' = JStr eid"
    and dom: "\<not> truthy (field (body req) ''domain'')"
  shows "field (loaded_stats w' eid) ''domains'' = field (loaded_stats w eid) ''domains''"
proof -
  from post_stats_D [OF call] eid obtain stats wa wb where
    upd: "update_stats req (loaded_stats w eid) wa = (Return stats, wb)" and
    written: "lookup (fs w') (stat_file w eid) = Some (File (JsonText stats))" and
    ok: "stats \<noteq> JUndef" "\<not> has_nul (stat_file w eid)" "dirname w' = dirname w"
    by auto
  have "loaded_stats w' eid = json_roundtrip stats"
    using written ok(1,2) by (intro loaded_after_write) (simp_all add: stat_file_dirname [OF ok(3)])
  with update_stats_no_domain [OF upd dom] show ?thesis
    by (simp only: loaded_roundtrip)
qed

text \<open>Two successive successful calls with the same non-empty domain string.\<close>

lemma same_domain_twice:
  assumes "post_stats r1 w = (Json 200 a1, w1)" and "post_stats r2 w1 = (Json 200 a2, w2)"
    and "field (body r1) ''extensionId'' = JStr eid"
    and "field (body r2) ''extensionId'' = JStr eid"
    and "field (body r1) ''domain'' = JStr d" and "field (body r2) ''domain'' = JStr d"
    and "d \<noteq> []"
    and "field (loaded_stats w eid) ''domains'' = JArr xs"
    and "count_list xs (JStr d) \<le> 1"
  shows "\<exists>ys. field (loaded_stats w2 eid) ''domains'' = JArr ys
           \<and> count_list ys (JStr d) = 1
           \<and> field (loaded_stats w1 eid) ''domains'' = JArr ys"
proof -
  let ?rt = "\<lambda>x. if x = JUndef then JNull else json_roundtrip x"
  let ?xs' = "if JStr d \<in> set xs then xs else xs @ [JStr d]"
  let ?ys = "map ?rt ?xs'"
  have first: "field (loaded_stats w1 eid) ''domains'' = JArr ?ys"
    using assms(1,3,5,7,8) by (rule post_stats_domains)
  have "count_list ?xs' (JStr d) = 1"
    using assms(9) by (auto simp: count_list_0_iff le_Suc_eq)
  then have one: "count_list ?ys (JStr d) = 1"
    by (simp only: count_roundtrip)
  then have mem: "JStr d \<in> set ?ys"
    using count_list_0_iff [of ?ys "JStr d"] by (simp del: json_roundtrip.simps)
  have "field (loaded_stats w2 eid) ''domains''
          = JArr (map ?rt (if JStr d \<in> set ?ys then ?ys else ?ys @ [JStr d]))"
    using assms(2,4,6,7) first by (rule post_stats_domains)
  with mem have "field (loaded_stats w2 eid) ''domains'' = JArr (map ?rt ?ys)"
    by (simp only: if_True)
  then have second: "field (loaded_stats w2 eid) ''domains'' = JArr ?ys"
    by (simp only: roundtrip_elements_idem)
  from first second one show ?thesis
    by (intro exI [of _ ?ys] conjI)
qed

text \<open>
  C5, as the code has it. Let two successive calls to /api/stats for the same client carry
  the same non-empty domain string and both succeed, and let the Stats Record that the first
  call loads list that domain at most once (the initial record lists nothing). Then the
  record persisted after the second call lists the domain exactly once, and the second call
  has left the list as the first one wrote it. A successful call whose domain is the empty
  string, or is absent or falsy in another way, leaves the persisted list as the call
  found it, whatever the record: the empty string is never added.
\<close>

theorem stats_domain_recorded_once:
  "(post_stats r1 w = (Json 200 a1, w1) \<and> post_stats r2 w1 = (Json 200 a2, w2)
    \<and> field (body r1) ''extensionId'' = JStr eid \<and> field (body r2) ''extensionId'' = JStr eid
    \<and> field (body r1) ''domain'' = JStr d \<and> field (body r2) ''domain'' = JStr d
    \<and> d \<noteq> []
    \<and> field (loaded_stats w eid) ''domains'' = JArr xs \<and> count_list xs (JStr d) \<le> 1
    \<longrightarrow> (\<exists>ys. field (loaded_stats w2 eid) ''domains'' = JArr ys
           \<and> count_list ys (JStr d) = 1
           \<and> field (loaded_stats w1 eid) ''domains'' = JArr ys))
   \<and> (post_stats r1 w = (Json 200 a1, w1) \<and> field (body r1) ''extensionId'' = JStr eid
      \<and> \<not> truthy (field (body r1) ''domain'')
      \<longrightarrow> field (loaded_stats w1 eid) ''domains'' = field (loaded_stats w eid) ''domains'')"
proof (intro conjI impI)
  assume h: "post_stats r1 w = (Json 200 a1, w1) \<and> post_stats r2 w1 = (Json 200 a2, w2)
    \<and> field (body r1) ''extensionId'' = JStr eid \<and> field (body r2) ''extensionId'' = JStr eid
    \<and> field (body r1) ''domain'' = JStr d \<and> field (body r2) ''domain'' = JStr d
    \<and> d \<noteq> []
    \<and> field (loaded_stats w eid) ''domains'' = JArr xs \<and> count_list xs (JStr d) \<le> 1"
  then have "post_stats r1 w = (Json 200 a1, w1)" and "post_stats r2 w1 = (Json 200 a2, w2)"
    and "field (body r1) ''extensionId'' = JStr eid"
    and "field (body r2) ''extensionId'' = JStr eid"
    and "field (body r1) ''domain'' = JStr d" and "field (body r2) ''domain'' = JStr d"
    and "d \<noteq> []"
    and "field (loaded_stats w eid) ''domains'' = JArr xs"
    and "count_list xs (JStr d) \<le> 1"
    by blast+
  then show "\<exists>ys. field (loaded_stats w2 eid) ''domains'' = JArr ys
           \<and> count_list ys (JStr d) = 1
           \<and> field (loaded_stats w1 eid) ''domains'' = JArr ys"
    by (rule same_domain_twice)
next
  assume "post_stats r1 w = (Json 200 a1, w1) \<and> field (body r1) ''extensionId'' = JStr eid
      \<and> \<not> truthy (field (body r1) ''domain'')"
  then have "post_stats r1 w = (Json 200 a1, w1)"
    and "field (body r1) ''extensionId'' = JStr eid"
    and "\<not> truthy (field (body r1) ''domain'')"
    by blast+
  then show "field (loaded_stats w1 eid) ''domains'' = field (loaded_stats w eid) ''domains''"
    by (rule post_stats_no_domain)
qed

text \<open>
  Two calls with \<^verbatim>\<open>example.com\<close> for a new client, and then a call with the empty domain
  for the same client, which finds and leaves the list \<^verbatim>\<open>["example.com"]\<close>.
\<close>

theorem stats_domain_recorded_once_witness:
  "post_stats (stats_call ''ext1'' ''example.com'') fresh_world
     = (Json 200 (JObj [(''success'', JBool True)]),
        after_calls post_stats [stats_call ''ext1'' ''example.com''] fresh_world)
   \<and> post_stats (stats_call ''ext1'' ''example.com'')
        (after_calls post_stats [stats_call ''ext1'' ''example.com''] fresh_world)
     = (Json 200 (JObj [(''success'', JBool True)]),
        after_calls post_stats
          [stats_call ''ext1'' ''example.com'', stats_call ''ext1'' ''example.com''] fresh_world)
   \<and> field (loaded_stats fresh_world ''ext1'') ''domains'' = JArr []
   \<and> (\<exists>ys. field (loaded_stats
                 (after_calls post_stats
                    [stats_call ''ext1'' ''example.com'', stats_call ''ext1'' ''example.com'']
                    fresh_world) ''ext1'') ''domains'' = JArr ys
           \<and> count_list ys (JStr ''example.com'') = 1
           \<and> field (loaded_stats
                 (after_calls post_stats [stats_call ''ext1'' ''example.com''] fresh_world)
                 ''ext1'') ''domains'' = JArr ys)
   \<and> post_stats (stats_call ''ext1'' [])
        (after_calls post_stats [stats_call ''ext1'' ''example.com''] fresh_world)
     = (Json 200 (JObj [(''success'', JBool True)]),
        after_calls post_stats
          [stats_call ''ext1'' ''example.com'', stats_call ''ext1'' []] fresh_world)
   \<and> field (body (stats_call ''ext1'' [])) ''domain'' = JStr []
   \<and> field (loaded_stats
              (after_calls post_stats [stats_call ''ext1'' ''example.com''] fresh_world)
              ''ext1'') ''domains'' = JArr [JStr ''example.com'']
   \<and> field (loaded_stats
              (after_calls post_stats
                 [stats_call ''ext1'' ''example.com'', stats_call ''ext1'' []] fresh_world)
              ''ext1'') ''domains'' = JArr [JStr ''example.com'']"
proof -
  have h1: "post_stats (stats_call ''ext1'' ''example.com'') fresh_world
     = (Json 200 (JObj [(''success'', JBool True)]),
        after_calls post_stats [stats_call ''ext1'' ''example.com''] fresh_world)"
    by code_simp
  have h2: "post_stats (stats_call ''ext1'' ''example.com'')
        (after_calls post_stats [stats_call ''ext1'' ''example.com''] fresh_world)
     = (Json 200 (JObj [(''success'', JBool True)]),
        after_calls post_stats
          [stats_call ''ext1'' ''example.com'', stats_call ''ext1'' ''example.com''] fresh_world)"
    by code_simp
  have h3: "field (loaded_stats fresh_world ''ext1'') ''domains'' = JArr []"
    by code_simp
  have h4: "post_stats (stats_call ''ext1'' [])
        (after_calls post_stats [stats_call ''ext1'' ''example.com''] fresh_world)
     = (Json 200 (JObj [(''success'', JBool True)]),
        after_calls post_stats
          [stats_call ''ext1'' ''example.com'', stats_call ''ext1'' []] fresh_world)"
    by code_simp
  have h5: "field (loaded_stats
              (after_calls post_stats [stats_call ''ext1'' ''example.com''] fresh_world)
              ''ext1'') ''domains'' = JArr [JStr ''example.com'']"
    by code_simp
  have e: "field (body (stats_call ''ext1'' d)) ''extensionId'' = JStr ''ext1''"
    and d: "field (body (stats_call ''ext1'' d)) ''domain'' = JStr d" for d
    by (simp_all add: stats_call_def json_request_def)
  have first: "\<exists>ys. field (loaded_stats
                 (after_calls post_stats
                    [stats_call ''ext1'' ''example.com'', stats_call ''ext1'' ''example.com'']
                    fresh_world) ''ext1'') ''domains'' = JArr ys
           \<and> count_list ys (JStr ''example.com'') = 1
           \<and> field (loaded_stats
                 (after_calls post_stats [stats_call ''ext1'' ''example.com''] fresh_world)
                 ''ext1'') ''domains'' = JArr ys"
    using stats_domain_recorded_once
            [where ?r1.0 = "stats_call ''ext1'' ''example.com''" and w = fresh_world
               and ?r2.0 = "stats_call ''ext1'' ''example.com''"
               and eid = "''ext1''" and d = "''example.com''" and xs = "[]"
               and ?a1.0 = "JObj [(''success'', JBool True)]"
               and ?a2.0 = "JObj [(''success'', JBool True)]"
               and ?w1.0 = "after_calls post_stats [stats_call ''ext1'' ''example.com''] fresh_world"
               and ?w2.0 = "after_calls post_stats
                             [stats_call ''ext1'' ''example.com'', stats_call ''ext1'' ''example.com'']
                             fresh_world"]
          h1 h2 h3 e d
    by simp
  have "field (loaded_stats
              (after_calls post_stats
                 [stats_call ''ext1'' ''example.com'', stats_call ''ext1'' []] fresh_world)
              ''ext1'') ''domains''
          = field (loaded_stats
              (after_calls post_stats [stats_call ''ext1'' ''example.com''] fresh_world)
              ''ext1'') ''domains''"
    using stats_domain_recorded_once
            [where ?r1.0 = "stats_call ''ext1'' []"
               and w = "after_calls post_stats [stats_call ''ext1'' ''example.com''] fresh_world"
               and eid = "''ext1''"
               and ?a1.0 = "JObj [(''success'', JBool True)]"
               and ?w1.0 = "after_calls post_stats
                             [stats_call ''ext1'' ''example.com'', stats_call ''ext1'' []]
                             fresh_world"]
          h4 e d
    by simp
  with h5 have second: "field (loaded_stats
              (after_calls post_stats
                 [stats_call ''ext1'' ''example.com'', stats_call ''ext1'' []] fresh_world)
              ''ext1'') ''domains'' = JArr [JStr ''example.com'']"
    by simp
  from h1 h2 h3 first h4 d [of "[]"] h5 second show ?thesis
    by (intro conjI)
qed

text \<open>
  The claim as stated, for every domain string, fails for the empty string: the guard
  \<^verbatim>\<open>domain && ...\<close> never adds it. Two successful calls with the domain \<^verbatim>\<open>""\<close> leave a
  record whose list is empty. It also fails when the record that the first call loads
  lists the domain twice, since the linear scan then finds it and leaves the list alone.
  Such a record is within reach of the interface: after \<open>overwrite_call\<close> has written its
  User Record over the Stats Record of client \<^verbatim>\<open>b\<close>, two successful calls with
  \<^verbatim>\<open>x.com\<close> for \<^verbatim>\<open>b\<close> leave two occurrences.
\<close>

theorem domain_occurrences_zero_or_two:
  "field (body (stats_call ''ext1'' [])) ''domain'' = JStr []
   \<and> fst (post_stats (stats_call ''ext1'' []) fresh_world) = Json 200 (JObj [(''success'', JBool True)])
   \<and> fst (post_stats (stats_call ''ext1'' [])
             (after_calls post_stats [stats_call ''ext1'' []] fresh_world))
       = Json 200 (JObj [(''success'', JBool True)])
   \<and> field (loaded_stats
              (after_calls post_stats [stats_call ''ext1'' [], stats_call ''ext1'' []] fresh_world)
              ''ext1'') ''domains'' = JArr []
   \<and> count_list [] (JStr []) = (0::nat)
   \<and> fst (post_stats overwrite_call fresh_world) = Json 200 (JObj [(''success'', JBool True)])
   \<and> field (loaded_stats (after_calls post_stats [overwrite_call] fresh_world) ''b'') ''domains''
       = JArr [JStr ''x.com'', JStr ''x.com'']
   \<and> fst (post_stats (stats_call ''b'' ''x.com'')
             (after_calls post_stats [overwrite_call] fresh_world))
       = Json 200 (JObj [(''success'', JBool True)])
   \<and> fst (post_stats (stats_call ''b'' ''x.com'')
             (after_calls post_stats [overwrite_call, stats_call ''b'' ''x.com''] fresh_world))
       = Json 200 (JObj [(''success'', JBool True)])
   \<and> field (loaded_stats
              (after_calls post_stats
                 [overwrite_call, stats_call ''b'' ''x.com'', stats_call ''b'' ''x.com'']
                 fresh_world) ''b'') ''domains''
       = JArr [JStr ''x.com'', JStr ''x.com'']
   \<and> count_list [JStr ''x.com'', JStr ''x.com''] (JStr ''x.com'') = (2::nat)"
  by code_simp

section \<open>What a log entry records\<close>

lemma logged_file:
  "lookup (fs w) p = Some (File (JsonText (JArr xs))) \<Longrightarrow> \<not> has_nul p \<Longrightarrow>
     logged p w = map (\<lambda>x. if x = JUndef then JNull else json_roundtrip x) xs"
  by (simp add: logged_def read_back)

lemma logged_frame:
  "fs w' = fs w \<Longrightarrow> logged p w' = logged p w"
  by (simp add: logged_def read_json_def readFileSync_def bnd_def JSON_parse_def ret_def throw_def
           split: option.splits node.splits content.splits)

lemma append_log_D:
  assumes "append_log w0 req eid w = (Return u, w')"
  shows "\<exists>today ts.
           now w \<le> today \<and> today \<le> now w'
           \<and> ts = (if truthy (field (body req) ''timestamp'') then field (body req) ''timestamp''
                   else JNum (now w'))
           \<and> logged (day_file w0 eid today) w'
               = logged (day_file w0 eid today) w
                   @ [json_roundtrip
                        (JObj [(''timestamp'', ts),
                               (''type'', or_info (field (body req) ''type'')),
                               (''message'', field (body req) ''message''),
                               (''proxy'', field (body req) ''proxy''),
                               (''ip'', of_opt (ip req))])]
           \<and> store w' = store w \<and> dirname w' = dirname w"
proof -
  let ?dir = "path_join (LOGS_DIR w0) [eid]"
  from assms obtain w1 today w2 ex w3 logs w4 w5 ts w6 logs' w7 where
    s1: "ensure_dir ?dir w = (Return (), w1)" and
    s2: "Date_now w1 = (Return today, w2)" and
    s3: "existsSync (path_join ?dir [iso_date today @ ''.json'']) w2 = (Return ex, w3)" and
    s4: "(if ex then read_json (path_join ?dir [iso_date today @ ''.json'']) else ret (JArr [])) w3
           = (Return logs, w4)" and
    s5: "deref logs w4 = (Return (), w5)" and
    s6: "or_now (field (body req) ''timestamp'') w5 = (Return ts, w6)" and
    s7: "array_push logs
             (JObj [(''timestamp'', ts),
                    (''type'', or_info (field (body req) ''type'')),
                    (''message'', field (body req) ''message''),
                    (''proxy'', field (body req) ''proxy''),
                    (''ip'', of_opt (ip req))]) w6 = (Return logs', w7)" and
    s8: "write_json (path_join ?dir [iso_date today @ ''.json'']) logs' w7 = (Return u, w')"
    unfolding append_log_def Let_def by (elim bnd_ReturnE) auto
  let ?file = "day_file w0 eid today"
  let ?entry = "JObj [(''timestamp'', ts),
                    (''type'', or_info (field (body req) ''type'')),
                    (''message'', field (body req) ''message''),
                    (''proxy'', field (body req) ''proxy''),
                    (''ip'', of_opt (ip req))]"
  have fname: "path_join ?dir [iso_date today @ ''.json''] = ?file"
    by (simp add: day_file_def)
  note f1 = ensure_dir_frame [OF s1] and f2 = Date_now_D [OF s2] and f3 = existsSync_D [OF s3]
    and f5 = deref_D [OF s5] and f6 = or_now_D [OF s6] and f7 = array_push_D [OF s7]
    and f8 = write_json_D [OF s8]
  from f3 have w3: "w3 = w2" by simp
  from s4 have w4: "w4 = w3"
    by (auto split: if_splits dest: read_json_D ret_D)
  from f5 have w5: "w5 = w4" by simp
  from f7 have w7: "w7 = w6" by simp
  from f7 obtain old where logs: "logs = JArr old" and logs': "logs' = JArr (old @ [?entry])"
    by auto
  have nonul: "\<not> has_nul ?file"
    using f8 by (simp add: fname)
  have before: "logged ?file w = map (\<lambda>x. if x = JUndef then JNull else json_roundtrip x) old"
  proof (cases ex)
    case True
    with s4 have "read_json ?file w2 = (Return (JArr old), w2)"
      by (simp add: fname w3 w4 logs)
    then obtain v0 where v0: "lookup (fs w2) ?file = Some (File (JsonText v0))"
      and rt: "json_roundtrip v0 = JArr old"
      by (auto simp: read_json_def bnd_def readFileSync_def JSON_parse_def ret_def throw_def
               split: if_splits option.splits node.splits content.splits)
    from v0 f2 have "lookup (fs w1) ?file = Some (File (JsonText v0))" by simp
    with ensure_dir_files [OF s1] have "lookup (fs w) ?file = Some (File (JsonText v0))" by simp
    moreover have "v0 \<noteq> JUndef" using rt by auto
    ultimately have "logged ?file w = old"
      using nonul rt by (simp add: logged_def read_back)
    moreover have "map (\<lambda>x. if x = JUndef then JNull else json_roundtrip x) old = old"
    proof -
      have "json_roundtrip (JArr old) = JArr old"
        using json_roundtrip_idem [of v0] by (simp add: rt)
      then show ?thesis by simp
    qed
    ultimately show ?thesis by simp
  next
    case False
    with s4 have old: "old = []"
      using logs by (auto dest: ret_D)
    from False f3 nonul have "lookup (fs w2) ?file = None"
      by (simp add: fname)
    with f2 have "lookup (fs w1) ?file = None" by simp
    with ensure_dir_files [OF s1, of ?file] have "\<forall>c. lookup (fs w) ?file \<noteq> Some (File c)"
      by simp
    then have "logged ?file w = []"
      by (auto simp: logged_def read_json_def bnd_def readFileSync_def throw_def
               split: option.splits node.splits)
    with old show ?thesis by simp
  qed
  have after: "logged ?file w' = map (\<lambda>x. if x = JUndef then JNull else json_roundtrip x) (old @ [?entry])"
    using f8 nonul by (intro logged_file) (simp_all add: fname logs')
  have clock: "now w \<le> today" "today \<le> now w'" "now w' = now w6"
    using f1 f2 f6 f8 by (simp_all add: w3 w4 w5 w7)
  have ts: "ts = (if truthy (field (body req) ''timestamp'') then field (body req) ''timestamp''
                   else JNum (now w'))"
    using f6 clock by simp
  have frame: "store w' = store w" "dirname w' = dirname w"
    using f1 f2 f6 f8 by (simp_all add: w3 w4 w5 w7)
  from before after clock ts frame show ?thesis
    by (intro exI [of _ today] exI [of _ ts]) simp
qed

lemma post_logs_D:
  assumes "post_logs req w = (Json 200 a, w')"
  shows "\<exists>eid today ts.
           field (body req) ''extensionId'' = JStr eid
           \<and> now w \<le> today \<and> today \<le> now w'
           \<and> ts = (if truthy (field (body req) ''timestamp'') then field (body req) ''timestamp''
                   else JNum (now w'))
           \<and> logged (day_file w eid today) w'
               = logged (day_file w eid today) w
                   @ [json_roundtrip
                        (JObj [(''timestamp'', ts),
                               (''type'', or_info (field (body req) ''type'')),
                               (''message'', field (body req) ''message''),
                               (''proxy'', field (body req) ''proxy''),
                               (''ip'', of_opt (ip req))])]
           \<and> events (store w') = push_seq eid [body req] (ensure_seq eid (events (store w)))"
proof -
  from assms have
    "bnd (deref (body req)) (\<lambda>_.
        if \<not> truthy (field (body req) ''extensionId'') then ret id_required
        else
        bnd (path_arg (field (body req) ''extensionId'')) (\<lambda>eid.
        bnd (append_log w req eid) (\<lambda>_.
        bnd (events_ensure eid) (\<lambda>_.
        bnd (events_push eid [body req]) (\<lambda>_.
        ret (Json 200 (JObj [(''success'', JBool True), (''received'', JBool True)]))))))) w
      = (Return (Json 200 a), w')"
    unfolding post_logs_def by (rule try_catch_JsonD)
  then obtain eid w1 w2 w3 where
    eid: "field (body req) ''extensionId'' = JStr eid" and
    s1: "append_log w req eid w = (Return (), w1)" and
    s2: "events_ensure eid w1 = (Return (), w2)" and
    s3: "events_push eid [body req] w2 = (Return (), w3)" and
    w': "w' = w3"
    by (auto elim!: bnd_ReturnE dest!: deref_D path_arg_D ret_D simp: id_required_def
             split: if_splits)
  note f2 = update_store_D [OF s2 [unfolded events_ensure_def]]
    and f3 = update_store_D [OF s3 [unfolded events_push_def]]
  from append_log_D [OF s1] obtain today ts where
    a: "now w \<le> today" "today \<le> now w1"
       "ts = (if truthy (field (body req) ''timestamp'') then field (body req) ''timestamp''
              else JNum (now w1))"
       "logged (day_file w eid today) w1
          = logged (day_file w eid today) w
              @ [json_roundtrip
                   (JObj [(''timestamp'', ts),
                          (''type'', or_info (field (body req) ''type'')),
                          (''message'', field (body req) ''message''),
                          (''proxy'', field (body req) ''proxy''),
                          (''ip'', of_opt (ip req))])]"
       "store w1 = store w"
    by blast
  have "fs w' = fs w1" "now w' = now w1"
    using f2 f3 by (simp_all add: w')
  moreover have "events (store w') = push_seq eid [body req] (ensure_seq eid (events (store w)))"
    using f2 f3 a(5) by (simp add: w')
  ultimately show ?thesis
    using eid a logged_frame [of w' w1 "day_file w eid today"]
    by (intro exI [of _ eid] exI [of _ today] exI [of _ ts]) simp
qed

lemma entry_fields:
  "field (json_roundtrip (JObj [(''timestamp'', ts), (''type'', ty), (''message'', m),
                                (''proxy'', p), (''ip'', i)])) ''timestamp'' = json_roundtrip ts"
  "field (json_roundtrip (JObj [(''timestamp'', ts), (''type'', ty), (''message'', m),
                                (''proxy'', p), (''ip'', i)])) ''type'' = json_roundtrip ty"
  by (cases "ts = JUndef"; cases "ty = JUndef"; simp)+

text \<open>
  C6, as the code has it. In a successful POST /api/logs the entry appended to the client's
  file of the day has the type \<^verbatim>\<open>info\<close> when the body's \<^verbatim>\<open>type\<close> is absent or falsy and the
  supplied type otherwise, and as timestamp a clock reading taken between the start and the
  completion of the call when the body's \<^verbatim>\<open>timestamp\<close> is absent or falsy and the supplied
  timestamp otherwise. A supplied value appears as \<^verbatim>\<open>JSON.stringify\<close> writes it, which for a
  value parsed from JSON is the value itself (\<open>json_roundtrip_id\<close>).
\<close>

theorem log_entry_defaults:
  assumes "post_logs req w = (Json 200 a, w')"
  shows "\<exists>eid today entry.
           field (body req) ''extensionId'' = JStr eid
           \<and> logged (day_file w eid today) w' = logged (day_file w eid today) w @ [entry]
           \<and> field entry ''type''
               = (if truthy (field (body req) ''type'')
                  then json_roundtrip (field (body req) ''type'') else JStr ''info'')
           \<and> (if truthy (field (body req) ''timestamp'')
               then field entry ''timestamp'' = json_roundtrip (field (body req) ''timestamp'')
               else \<exists>t. field entry ''timestamp'' = JNum t \<and> now w \<le> t \<and> t \<le> now w')"
proof -
  from post_logs_D [OF assms] obtain eid today ts where
    eid: "field (body req) ''extensionId'' = JStr eid" and
    clock: "now w \<le> today" "today \<le> now w'" and
    ts: "ts = (if truthy (field (body req) ''timestamp'') then field (body req) ''timestamp''
               else JNum (now w'))" and
    appended: "logged (day_file w eid today) w'
             = logged (day_file w eid today) w
                 @ [json_roundtrip
                      (JObj [(''timestamp'', ts),
                             (''type'', or_info (field (body req) ''type'')),
                             (''message'', field (body req) ''message''),
                             (''proxy'', field (body req) ''proxy''),
                             (''ip'', of_opt (ip req))])]"
    by blast
  show ?thesis
    using eid appended clock ts
    by (intro exI [of _ eid] exI [of _ today] exI conjI)
       (assumption, assumption, auto simp: entry_fields or_info_def)
qed

theorem log_entry_defaults_witness:
  "post_logs full_log_call fresh_world
     = (Json 200 (JObj [(''success'', JBool True), (''received'', JBool True)]),
        snd (post_logs full_log_call fresh_world))
   \<and> (\<exists>eid today entry.
         field (body full_log_call) ''extensionId'' = JStr eid
         \<and> logged (day_file fresh_world eid today) (snd (post_logs full_log_call fresh_world))
             = logged (day_file fresh_world eid today) fresh_world @ [entry]
         \<and> field entry ''type''
             = (if truthy (field (body full_log_call) ''type'')
                then json_roundtrip (field (body full_log_call) ''type'') else JStr ''info'')
         \<and> (if truthy (field (body full_log_call) ''timestamp'')
             then field entry ''timestamp'' = json_roundtrip (field (body full_log_call) ''timestamp'')
             else \<exists>t. field entry ''timestamp'' = JNum t \<and> now fresh_world \<le> t
                    \<and> t \<le> now (snd (post_logs full_log_call fresh_world))))"
proof -
  have h: "post_logs full_log_call fresh_world
     = (Json 200 (JObj [(''success'', JBool True), (''received'', JBool True)]),
        snd (post_logs full_log_call fresh_world))"
    by code_simp
  from h log_entry_defaults [OF h] show ?thesis
    by (intro conjI)
qed

text \<open>
  The claim that supplied values are always used fails for falsy ones: a call that supplies
  the timestamp \<^verbatim>\<open>0\<close> and the type \<^verbatim>\<open>""\<close> succeeds, and the entry it writes carries the
  clock reading and \<^verbatim>\<open>info\<close> instead.
\<close>

theorem supplied_falsy_values_replaced:
  "field (body falsy_log_call) ''timestamp'' = JNum 0
   \<and> field (body falsy_log_call) ''type'' = JStr []
   \<and> fst (post_logs falsy_log_call fresh_world)
       = Json 200 (JObj [(''success'', JBool True), (''received'', JBool True)])
   \<and> logged (day_file fresh_world ''ext1'' 1793620800001) (snd (post_logs falsy_log_call fresh_world))
       = [JObj [(''timestamp'', JNum 1793620800002), (''type'', JStr ''info''),
                (''message'', JStr ''started''), (''ip'', JStr ''203.0.113.7'')]]"
  by code_simp

section \<open>Acknowledgement of analytics calls\<close>

text \<open>
  A type other than \<^verbatim>\<open>request\<close>, \<^verbatim>\<open>error\<close> and \<^verbatim>\<open>batch\<close> is written to its file and
  acknowledged; the in-memory maps stay as they are. The types \<^verbatim>\<open>request\<close> and \<^verbatim>\<open>error\<close>
  are acknowledged as well.
\<close>

lemma other_types_acknowledged:
  assumes "field (body req) ''extensionId'' = JStr eid" and "eid \<noteq> []"
    and "persist_analytics w req eid w = (Return (), w1)"
    and "field (body req) ''type'' \<noteq> JStr ''batch''"
  shows "fst (post_analytics req w)
           = Json 200 (JObj [(''success'', JBool True), (''received'', JBool True)])"
    and "field (body req) ''type'' \<noteq> JStr ''request'' \<Longrightarrow> field (body req) ''type'' \<noteq> JStr ''error''
           \<Longrightarrow> snd (post_analytics req w) = w1 \<and> store w1 = store w"
  unfolding post_analytics_persisted [OF assms(1-3)]
  using assms(4) persist_analytics_frame [OF assms(3)]
  by (simp_all add: route_def try_catch_def bnd_def ret_def
                    requests_ensure_def requests_push_def errors_ensure_def errors_push_def
                    update_store_def)

text \<open>
  C7. The claim that a call with a valid client identifier is always acknowledged does not
  hold of the code: in the batch branch \<^verbatim>\<open>data.requests\<close> is read without a check that
  \<^verbatim>\<open>data\<close> is there. A batch call without \<^verbatim>\<open>data\<close> writes its event file, then throws a
  TypeError and is answered with status 500.
\<close>

theorem batch_without_data_fails:
  "fst (post_analytics batch_without_data fresh_world) = ServerError TypeError
   \<and> lookup (fs (snd (post_analytics batch_without_data fresh_world)))
        [''srv'', ''data'', ''logs'', ''ext1'', ''analytics'', ''batch_1793620800001.json'']
       = Some (File (JsonText
           (JObj [(''sessionId'', JUndef), (''timestamp'', JNum 1793620800002),
                  (''type'', JStr ''batch''), (''data'', JUndef),
                  (''ip'', JStr ''203.0.113.7''), (''userAgent'', JStr ''ProxyMaster/1.0'')])))
   \<and> store (snd (post_analytics batch_without_data fresh_world)) = empty_store"
  by code_simp

section \<open>The export gate\<close>

text \<open>
  C8. A GET /api/export whose Authorization header is absent or differs from
  \<^verbatim>\<open>Bearer admin123\<close> is answered with status 403, and the world is unchanged: the snapshot
  file is written only after the comparison has passed.
\<close>

theorem export_forbidden_without_token:
  assumes "authorization req \<noteq> Some ''Bearer admin123''"
  shows "get_export req w = (Json 403 (JObj [(''error'', JStr ''Unauthorized'')]), w)"
  using assms by (simp add: get_export_def)

theorem export_forbidden_without_token_witness:
  "get_export (auth_request (Some ''Bearer admin124'')) fresh_world
     = (Json 403 (JObj [(''error'', JStr ''Unauthorized'')]), fresh_world)"
  using export_forbidden_without_token [of "auth_request (Some ''Bearer admin124'')" fresh_world]
  by (simp add: auth_request_def)

section \<open>Defaults by truthiness\<close>

text \<open>
  C9. The defaults of a log entry are chosen by truthiness. In a successful POST /api/logs
  whose body has a falsy \<^verbatim>\<open>timestamp\<close> (absent, \<^verbatim>\<open>0\<close>, \<^verbatim>\<open>""\<close>, \<^verbatim>\<open>null\<close>, \<^verbatim>\<open>false\<close>), the entry
  appended to the file of the day carries a clock reading taken during the call; with a falsy
  \<^verbatim>\<open>type\<close> (absent, \<^verbatim>\<open>""\<close>, \<^verbatim>\<open>0\<close>, ...) it carries the type \<^verbatim>\<open>info\<close>. A supplied \<^verbatim>\<open>0\<close> or
  \<^verbatim>\<open>""\<close> is replaced like an absent value.
\<close>

theorem log_defaults_by_truthiness:
  assumes "post_logs req w = (Json 200 a, w')"
  shows "\<exists>eid today entry.
           field (body req) ''extensionId'' = JStr eid
           \<and> logged (day_file w eid today) w' = logged (day_file w eid today) w @ [entry]
           \<and> (\<not> truthy (field (body req) ''timestamp'') \<longrightarrow>
                (\<exists>t. field entry ''timestamp'' = JNum t \<and> now w \<le> t \<and> t \<le> now w'))
           \<and> (\<not> truthy (field (body req) ''type'') \<longrightarrow> field entry ''type'' = JStr ''info'')"
proof -
  from post_logs_D [OF assms] obtain eid today ts where
    eid: "field (body req) ''extensionId'' = JStr eid" and
    clock: "now w \<le> today" "today \<le> now w'" and
    ts: "ts = (if truthy (field (body req) ''timestamp'') then field (body req) ''timestamp''
               else JNum (now w'))" and
    appended: "logged (day_file w eid today) w'
             = logged (day_file w eid today) w
                 @ [json_roundtrip
                      (JObj [(''timestamp'', ts),
                             (''type'', or_info (field (body req) ''type'')),
                             (''message'', field (body req) ''message''),
                             (''proxy'', field (body req) ''proxy''),
                             (''ip'', of_opt (ip req))])]"
    by blast
  show ?thesis
    using eid appended clock ts
    by (intro exI [of _ eid] exI [of _ today] exI conjI)
       (assumption, assumption, auto simp: entry_fields or_info_def)
qed

theorem log_defaults_by_truthiness_witness:
  "post_logs falsy_log_call fresh_world
     = (Json 200 (JObj [(''success'', JBool True), (''received'', JBool True)]),
        snd (post_logs falsy_log_call fresh_world))
   \<and> (\<exists>eid today entry.
         field (body falsy_log_call) ''extensionId'' = JStr eid
         \<and> logged (day_file fresh_world eid today) (snd (post_logs falsy_log_call fresh_world))
             = logged (day_file fresh_world eid today) fresh_world @ [entry]
         \<and> (\<not> truthy (field (body falsy_log_call) ''timestamp'') \<longrightarrow>
              (\<exists>t. field entry ''timestamp'' = JNum t \<and> now fresh_world \<le> t
                 \<and> t \<le> now (snd (post_logs falsy_log_call fresh_world))))
         \<and> (\<not> truthy (field (body falsy_log_call) ''type'') \<longrightarrow>
              field entry ''type'' = JStr ''info''))
   \<and> \<not> truthy (field (body falsy_log_call) ''timestamp'')
   \<and> \<not> truthy (field (body falsy_log_call) ''type'')"
proof -
  have h: "post_logs falsy_log_call fresh_world
     = (Json 200 (JObj [(''success'', JBool True), (''received'', JBool True)]),
        snd (post_logs falsy_log_call fresh_world))"
    by code_simp
  have f: "\<not> truthy (field (body falsy_log_call) ''timestamp'')"
    "\<not> truthy (field (body falsy_log_call) ''type'')"
    by (simp_all add: falsy_log_call_def json_request_def)
  from h log_defaults_by_truthiness [OF h] f show ?thesis
    by (intro conjI)
qed

section \<open>The two user counts\<close>

lemma get_export_D:
  assumes "get_export req w = (Download f, w')"
  shows "\<exists>t. lookup (fs w') f = Some (File (JsonText (export_data (store w) t))) \<and> \<not> has_nul f"
proof -
  from assms have auth: "authorization req = Some ''Bearer admin123''"
    by (auto simp: get_export_def split: if_splits)
  with assms have
    "bnd Date_now (\<lambda>t.
        let exportData = export_data (store w) t in
        bnd Date_now (\<lambda>t'.
        let exportFile = path_join (DATA_DIR w) [''export_'' @ show_int t' @ ''.json''] in
        bnd (write_json exportFile exportData) (\<lambda>_.
        ret (Download exportFile)))) w = (Return (Download f), w')"
    unfolding get_export_def by (intro try_catch_ReturnD) auto
  then show ?thesis
    unfolding Let_def
    by (auto elim!: bnd_ReturnE dest!: write_json_D ret_D)
qed

lemma export_data_totalUsers:
  "field (json_roundtrip (export_data s t)) ''totalUsers'' = JNum (int (length (users s)))"
  by (simp add: export_data_def from_entries_def)

text \<open>
  C10. The \<^verbatim>\<open>totalUsers\<close> of an export snapshot is the number of entries of the in-memory
  users map; the \<^verbatim>\<open>totalUsers\<close> of the dashboard is the number of entries of the users
  directory. They can differ: on a process restarted over a disk that holds one User Record,
  the export says 0 and the dashboard says 1.
\<close>

theorem totalUsers_export_vs_dashboard:
  "(get_export req w = (Download f, w') \<longrightarrow>
      (\<exists>snapshot. snapshot_of (get_export req w) = Some snapshot
         \<and> field snapshot ''totalUsers'' = JNum (int (length (users (store w))))))
   \<and> (get_dashboard w = (DashboardJson d, w'') \<longrightarrow>
      (\<exists>es. lookup (fs w) (USERS_DIR w) = Some (Dir es) \<and> totalUsers d = length es))
   \<and> map_option (\<lambda>v. field v ''totalUsers'')
        (snapshot_of (get_export (auth_request (Some ''Bearer admin123'')) restarted_world))
      = Some (JNum 0)
   \<and> map_option totalUsers (report (fst (get_dashboard restarted_world))) = Some 1"
proof (intro conjI impI)
  assume ex: "get_export req w = (Download f, w')"
  then obtain t where "lookup (fs w') f = Some (File (JsonText (export_data (store w) t)))"
    and "\<not> has_nul f"
    using get_export_D by blast
  then have "read_json f w' = (Return (json_roundtrip (export_data (store w) t)), w')"
    by (intro read_back) (simp_all add: export_data_def)
  with ex show "\<exists>snapshot. snapshot_of (get_export req w) = Some snapshot
         \<and> field snapshot ''totalUsers'' = JNum (int (length (users (store w))))"
    by (simp add: snapshot_of_def export_data_totalUsers)
next
  assume "get_dashboard w = (DashboardJson d, w'')"
  then obtain names where "readdirSync (USERS_DIR w) w = (Return names, w)"
    and "totalUsers d = length names"
    using get_dashboard_D(4) by blast
  then show "\<exists>es. lookup (fs w) (USERS_DIR w) = Some (Dir es) \<and> totalUsers d = length es"
    by (auto simp: readdirSync_def split: if_splits option.splits node.splits)
next
  show "map_option (\<lambda>v. field v ''totalUsers'')
        (snapshot_of (get_export (auth_request (Some ''Bearer admin123'')) restarted_world))
      = Some (JNum 0)"
    by code_simp
next
  show "map_option totalUsers (report (fst (get_dashboard restarted_world))) = Some 1"
    by code_simp
qed

theorem totalUsers_export_vs_dashboard_witness:
  "get_export (auth_request (Some ''Bearer admin123'')) restarted_world
     = (Download [''srv'', ''data'', ''export_1793620800003.json''],
        snd (get_export (auth_request (Some ''Bearer admin123'')) restarted_world))
   \<and> (\<exists>snapshot.
         snapshot_of (get_export (auth_request (Some ''Bearer admin123'')) restarted_world)
           = Some snapshot
         \<and> field snapshot ''totalUsers'' = JNum (int (length (users (store restarted_world)))))
   \<and> get_dashboard restarted_world
     = (DashboardJson
          \<lparr>totalUsers = 1, activeUsers = 0, totalRequests = 0, totalErrors = 0,
           proxyUsage = [], topDomains = []\<rparr>,
        restarted_world)
   \<and> (\<exists>es. lookup (fs restarted_world) (USERS_DIR restarted_world) = Some (Dir es)
         \<and> (1::nat) = length es)"
proof -
  have h1: "get_export (auth_request (Some ''Bearer admin123'')) restarted_world
     = (Download [''srv'', ''data'', ''export_1793620800003.json''],
        snd (get_export (auth_request (Some ''Bearer admin123'')) restarted_world))"
    by code_simp
  have h2: "get_dashboard restarted_world
     = (DashboardJson
          \<lparr>totalUsers = 1, activeUsers = 0, totalRequests = 0, totalErrors = 0,
           proxyUsage = [], topDomains = []\<rparr>,
        restarted_world)"
    by code_simp
  show ?thesis
    using totalUsers_export_vs_dashboard
            [where req = "auth_request (Some ''Bearer admin123'')" and w = restarted_world
               and f = "[''srv'', ''data'', ''export_1793620800003.json'']"
               and w' = "snd (get_export (auth_request (Some ''Bearer admin123'')) restarted_world)"
               and d = "\<lparr>totalUsers = 1, activeUsers = 0, totalRequests = 0, totalErrors = 0,
                         proxyUsage = [], topDomains = []\<rparr>"
               and w'' = restarted_world]
          h1 h2
    by simp
qed

end
